theory Spec2Isabelle
  imports Main "HOL-Library.Multiset"
begin

section \<open>The file system seen by the classes\<close>

text \<open>
  \<^verbatim>\<open>classes.py\<close> reads the analysis output through \<^verbatim>\<open>os.path.exists\<close>,
  \<^verbatim>\<open>open\<close> and \<^verbatim>\<open>find.find\<close>. The file system is a tree: a regular file
  holds its lines, a directory holds its entries in iteration order. A path is
  the list of its components below the file-system root, so that
  \<^verbatim>\<open>os.path.join(d, name)\<close> is \<open>d @ [name]\<close>; \<^verbatim>\<open>os.path.abspath\<close> is the
  identity on such paths.
\<close>

type_synonym path = "string list"

datatype node = File "string list" | Dir "(string \<times> node) list"

fun lookup :: "node \<Rightarrow> path \<Rightarrow> node option" where
  "lookup n [] = Some n"
| "lookup n (c # p) =
     (case n of
        File ls \<Rightarrow> None
      | Dir cs \<Rightarrow> (case map_of cs c of None \<Rightarrow> None | Some m \<Rightarrow> lookup m p))"

text \<open>\<^verbatim>\<open>os.path.exists(p)\<close>: true for a file as well as for a directory.\<close>

definition path_exists :: "node \<Rightarrow> path \<Rightarrow> bool" where
  "path_exists fs p = (lookup fs p \<noteq> None)"

text \<open>\<^verbatim>\<open>os.path.isdir(p)\<close>; the classes never call it.\<close>

definition path_isdir :: "node \<Rightarrow> path \<Rightarrow> bool" where
  "path_isdir fs p = (case lookup fs p of Some (Dir cs) \<Rightarrow> True | _ \<Rightarrow> False)"

datatype error = AnalysisItemMissing | IOError | KeyError | IndexError | AttributeError | CsvError

text \<open>
  \<^verbatim>\<open>open(p, 'rb')\<close> and the iteration over the file: the lines of a regular
  file, an \<^verbatim>\<open>IOError\<close> for a missing path or a directory. A file is kept as
  its lines without their terminator; on disk every line ends with the
  newline character, which the readers see at the end of each line.
\<close>

definition read_lines :: "node \<Rightarrow> path \<Rightarrow> error + string list" where
  "read_lines fs p =
     (case lookup fs p of Some (File ls) \<Rightarrow> Inr ls | _ \<Rightarrow> Inl IOError)"

section \<open>The csv readers\<close>

text \<open>
  \<^verbatim>\<open>csv.reader\<close> with its default dialect (delimiter comma, quote character
  the double quote, doubled quotes inside quoted fields, no escape character,
  not strict), as the reader of Python 2 parses: character by character
  through the states of its parser, with the end of each line signalled by a
  marker (\<open>None\<close> below). A record ends at the end of a line unless a quoted
  field is open, which then runs on into the next line. A line of no
  characters but its terminator gives the empty record. A NUL byte in a line
  and any character but a line terminator after a carriage return or newline
  inside an unquoted field raise \<^verbatim>\<open>csv.Error\<close>, and so does a character
  added to a field that has reached the field size limit of 131072.
\<close>

datatype parser_state =
  START_RECORD | START_FIELD | IN_FIELD | IN_QUOTED_FIELD | QUOTE_IN_QUOTED_FIELD | EAT_CRNL

text \<open>The state of the parser: its state, the fields saved, the field being read.\<close>

type_synonym parser = "parser_state \<times> string list \<times> string"

definition is_crnl :: "char \<Rightarrow> bool" where
  "is_crnl c = (c = CHR 0x0A \<or> c = CHR 0x0D)"

definition parse_add_char :: "parser_state \<Rightarrow> string list \<Rightarrow> string \<Rightarrow> char \<Rightarrow> error + parser" where
  "parse_add_char st fields field c =
     (if 131072 \<le> length field then Inl CsvError else Inr (st, fields, field @ [c]))"

text \<open>The case \<^verbatim>\<open>START_FIELD\<close>, into which \<^verbatim>\<open>START_RECORD\<close> falls through.\<close>

definition start_field :: "string list \<Rightarrow> string \<Rightarrow> char option \<Rightarrow> error + parser" where
  "start_field fields field c =
     (case c of
        None \<Rightarrow> Inr (START_RECORD, fields @ [field], [])
      | Some x \<Rightarrow>
          if is_crnl x then Inr (EAT_CRNL, fields @ [field], [])
          else if x = CHR 0x22 then Inr (IN_QUOTED_FIELD, fields, field)
          else if x = CHR '','' then Inr (START_FIELD, fields @ [field], [])
          else parse_add_char IN_FIELD fields field x)"

fun parse_process_char :: "parser \<Rightarrow> char option \<Rightarrow> error + parser" where
  "parse_process_char (START_RECORD, fields, field) c =
     (case c of
        None \<Rightarrow> Inr (START_RECORD, fields, field)
      | Some x \<Rightarrow>
          if is_crnl x then Inr (EAT_CRNL, fields, field)
          else start_field fields field c)"
| "parse_process_char (START_FIELD, fields, field) c = start_field fields field c"
| "parse_process_char (IN_FIELD, fields, field) c =
     (case c of
        None \<Rightarrow> Inr (START_RECORD, fields @ [field], [])
      | Some x \<Rightarrow>
          if is_crnl x then Inr (EAT_CRNL, fields @ [field], [])
          else if x = CHR '','' then Inr (START_FIELD, fields @ [field], [])
          else parse_add_char IN_FIELD fields field x)"
| "parse_process_char (IN_QUOTED_FIELD, fields, field) c =
     (case c of
        None \<Rightarrow> Inr (IN_QUOTED_FIELD, fields, field)
      | Some x \<Rightarrow>
          if x = CHR 0x22 then Inr (QUOTE_IN_QUOTED_FIELD, fields, field)
          else parse_add_char IN_QUOTED_FIELD fields field x)"
| "parse_process_char (QUOTE_IN_QUOTED_FIELD, fields, field) c =
     (case c of
        None \<Rightarrow> Inr (START_RECORD, fields @ [field], [])
      | Some x \<Rightarrow>
          if x = CHR 0x22 then parse_add_char IN_QUOTED_FIELD fields field x
          else if x = CHR '','' then Inr (START_FIELD, fields @ [field], [])
          else if is_crnl x then Inr (EAT_CRNL, fields @ [field], [])
          else parse_add_char IN_FIELD fields field x)"
| "parse_process_char (EAT_CRNL, fields, field) c =
     (case c of
        None \<Rightarrow> Inr (START_RECORD, fields, field)
      | Some x \<Rightarrow>
          if is_crnl x then Inr (EAT_CRNL, fields, field)
          else Inl CsvError)"

text \<open>The characters of one line, each passed to the parser.\<close>

fun parse_line :: "parser \<Rightarrow> string \<Rightarrow> error + parser" where
  "parse_line p [] = Inr p"
| "parse_line p (c # cs) =
     (if c = CHR 0x00 then Inl CsvError
      else (case parse_process_char p (Some c) of
              Inl e \<Rightarrow> Inl e
            | Inr p' \<Rightarrow> parse_line p' cs))"

text \<open>
  The records that the iteration over the reader yields, and the exception
  that ends the iteration, if any. At the end of the input an open quoted
  field is saved and its record is the last one.
\<close>

fun csv_rows :: "parser \<Rightarrow> string list \<Rightarrow> string list list \<times> error option" where
  "csv_rows (st, fields, field) [] =
     (if field \<noteq> [] \<or> st = IN_QUOTED_FIELD then ([fields @ [field]], None) else ([], None))"
| "csv_rows p (line # lines) =
     (case parse_line p (line @ [CHR 0x0A]) of
        Inl e \<Rightarrow> ([], Some e)
      | Inr p1 \<Rightarrow>
          (case parse_process_char p1 None of
             Inl e \<Rightarrow> ([], Some e)
           | Inr (st, fields, field) \<Rightarrow>
               if st = START_RECORD
               then (case csv_rows (START_RECORD, [], []) lines of
                       (rows, e) \<Rightarrow> (fields # rows, e))
               else csv_rows (st, fields, field) lines))"

definition csv_reader :: "string list \<Rightarrow> string list list \<times> error option" where
  "csv_reader ls = csv_rows (START_RECORD, [], []) ls"

text \<open>
  A row of \<^verbatim>\<open>csv.DictReader\<close> is a dict. Its keys are the field names and, for
  a row longer than the header, the key \<^verbatim>\<open>None\<close> (the default \<^verbatim>\<open>restkey\<close>),
  under which the list of the extra fields is stored; a row shorter than the
  header holds \<^verbatim>\<open>None\<close> (the default \<^verbatim>\<open>restval\<close>) under the missing names.
\<close>

datatype csv_value = VStr string | VNone | VList "string list"

type_synonym csv_dict = "(string option \<times> csv_value) list"

text \<open>\<^verbatim>\<open>d[k] = v\<close> on a dict kept as an association list with unique keys.\<close>

fun dict_set :: "'k \<Rightarrow> 'v \<Rightarrow> ('k \<times> 'v) list \<Rightarrow> ('k \<times> 'v) list" where
  "dict_set k v [] = [(k, v)]"
| "dict_set k v ((k', v') # d) =
     (if k' = k then (k, v) # d else (k', v') # dict_set k v d)"

definition dict_row :: "string list \<Rightarrow> string list \<Rightarrow> csv_dict" where
  "dict_row fieldnames row =
     (let d = fold (\<lambda>(k, v) d. dict_set (Some k) (VStr v) d) (zip fieldnames row) [];
          lf = length fieldnames;
          lr = length row
      in if lf < lr then dict_set None (VList (drop lf row)) d
         else if lr < lf then fold (\<lambda>k d. dict_set (Some k) VNone d) (drop lr fieldnames) d
         else d)"

text \<open>
  The rows that the iteration over a \<^verbatim>\<open>csv.DictReader\<close> yields: the first
  record gives the field names, empty records are skipped. An exception of
  the reader ends the iteration, so the loop that collects the rows is left
  with it.
\<close>

definition dict_reader :: "string list \<Rightarrow> error + csv_dict list" where
  "dict_reader ls =
     (case csv_reader ls of
        (records, Some e) \<Rightarrow> Inl e
      | (records, None) \<Rightarrow>
          Inr (case records of
                 [] \<Rightarrow> []
               | fieldnames # rows \<Rightarrow> map (dict_row fieldnames) (filter (\<lambda>r. r \<noteq> []) rows)))"

section \<open>The pattern matcher\<close>

text \<open>
  Modelled from the spec: \<^verbatim>\<open>util.find.find\<close> is imported from the parent
  directory and is not part of the sources. The spec's contract (4.1):
  \<^verbatim>\<open>search(root, inclusion_patterns, exclusion_patterns, target_kind,
  match_mode, depth_limit, result_limit)\<close> returns the ordered sequence of the
  paths below \<open>root\<close> whose names match the glob-style inclusion patterns (one
  of them for \<^verbatim>\<open>any\<close>, every one for \<^verbatim>\<open>all\<close>) and no exclusion pattern,
  filtered to files or directories, with depth limit 0 meaning the immediate
  children and no limit meaning the whole subtree, cut to the result limit; an
  empty result is never an error. Glob patterns are matched with \<^verbatim>\<open>*\<close> (any
  run of characters) and \<^verbatim>\<open>?\<close> (one character); every other character stands
  for itself.
\<close>

fun glob :: "string \<Rightarrow> string \<Rightarrow> bool" where
  "glob [] s = (s = [])"
| "glob (p # ps) [] = (p = CHR ''*'' \<and> glob ps [])"
| "glob (p # ps) (c # cs) =
     (if p = CHR ''*'' then glob ps (c # cs) \<or> glob (p # ps) cs
      else (p = CHR ''?'' \<or> p = c) \<and> glob ps cs)"

datatype search_type = SearchFile | SearchDir | SearchAll

datatype match_mode = MatchAny | MatchAll

fun entries :: "nat option \<Rightarrow> path \<Rightarrow> node \<Rightarrow> (path \<times> string \<times> node) list"
  and entries_below :: "nat option \<Rightarrow> path \<Rightarrow> (string \<times> node) list \<Rightarrow> (path \<times> string \<times> node) list"
where
  "entries lim p (File ls) = []"
| "entries lim p (Dir cs) =
     map (\<lambda>(n, c). (p @ [n], n, c)) cs @
     (case lim of
        None \<Rightarrow> entries_below None p cs
      | Some 0 \<Rightarrow> []
      | Some (Suc k) \<Rightarrow> entries_below (Some k) p cs)"
| "entries_below lim p [] = []"
| "entries_below lim p ((n, c) # cs) = entries lim (p @ [n]) c @ entries_below lim p cs"

definition kind_ok :: "search_type \<Rightarrow> node \<Rightarrow> bool" where
  "kind_ok t n =
     (case t of
        SearchAll \<Rightarrow> True
      | SearchFile \<Rightarrow> (case n of File ls \<Rightarrow> True | Dir cs \<Rightarrow> False)
      | SearchDir \<Rightarrow> (case n of File ls \<Rightarrow> False | Dir cs \<Rightarrow> True))"

definition name_ok :: "string list \<Rightarrow> string list \<Rightarrow> match_mode \<Rightarrow> string \<Rightarrow> bool" where
  "name_ok inclusion_patterns exclusion_patterns mode name =
     ((case mode of
         MatchAny \<Rightarrow> list_ex (\<lambda>p. glob p name) inclusion_patterns
       | MatchAll \<Rightarrow> list_all (\<lambda>p. glob p name) inclusion_patterns)
      \<and> \<not> list_ex (\<lambda>p. glob p name) exclusion_patterns)"

definition find_find :: "node \<Rightarrow> path \<Rightarrow> string list \<Rightarrow> string list \<Rightarrow> search_type \<Rightarrow>
    nat option \<Rightarrow> nat option \<Rightarrow> match_mode \<Rightarrow> path list" where
  "find_find fs search_dir inclusion_patterns exclusion_patterns stype num_limit level_limit mode =
     (case lookup fs search_dir of
        None \<Rightarrow> []
      | Some root \<Rightarrow>
          (let matches =
                 map fst (filter (\<lambda>(p, name, n). kind_ok stype n \<and>
                            name_ok inclusion_patterns exclusion_patterns mode name)
                          (entries level_limit search_dir root))
           in (case num_limit of None \<Rightarrow> matches | Some k \<Rightarrow> take k matches)))"

section \<open>The path registry\<close>

text \<open>
  Modelled from the spec: \<^verbatim>\<open>util.classes.AnalysisItem\<close> is imported from the
  parent directory and is not part of the sources. The spec's data model (3):
  a registry maps a name to an ordered sequence of paths, keys are unique,
  lookup is total (an absent key yields the empty sequence), storing a search
  result keeps the single result or its absence under the name, and the
  reducer \<^verbatim>\<open>list_none\<close> turns a sequence into its path only when it has
  exactly one element.
\<close>

type_synonym registry = "(string \<times> path list) list"

definition registry_get :: "registry \<Rightarrow> string \<Rightarrow> path list" where
  "registry_get r name = (case map_of r name of None \<Rightarrow> [] | Some ps \<Rightarrow> ps)"

definition list_none :: "'a list \<Rightarrow> 'a option" where
  "list_none l = (case l of [x] \<Rightarrow> Some x | _ \<Rightarrow> None)"

section \<open>The analysis output\<close>

text \<open>
  The \<^verbatim>\<open>sns_config\<close> dict with its two keys; \<open>None\<close> is an absent key.
  The values under the names of \<^verbatim>\<open>analysis_output_index\<close> are never read.
\<close>

record sns_cfg =
  cfg_email_recipients :: "string option"
  cfg_analysis_output_index :: "(string \<times> string list) list option"

text \<open>
  The notes of the validations are format strings:
  \<^verbatim>\<open>'Whether or not the analysis directory ({0}) exists'\<close> with the directory,
  \<^verbatim>\<open>'Whether or not all of the expected files in the analysis exist;\n{0}'\<close>
  with the existence tuples, and two fixed texts.
\<close>

datatype validation_note =
    NoteDirExists path
  | NoteStaticFiles "(string \<times> path \<times> bool) list"
  | NoteText string

record validation =
  status :: bool
  v_note :: validation_note

text \<open>The messages the classes send to the logger, in the order sent.\<close>

datatype log_event =
    DebugInitialized string
  | DebugIndexNotFound
  | ErrorQsubLogs
  | DebugQsubLogFiles "path list"
  | ErrorSummaryNotFound
  | WarningSummaryErrors "csv_value list"
  | DebugValidations "(string \<times> validation) list"
  | InfoPassed bool

text \<open>
  The attributes of a \<^verbatim>\<open>SnsWESAnalysisOutput\<close>. \<open>is_valid\<close> is \<open>None\<close> while
  the attribute has not been assigned.
\<close>

record analysis =
  a_id :: string
  a_dir :: path
  a_sns_config :: sns_cfg
  a_results_id :: string
  email_recipients :: string
  analysis_output_index :: "(string \<times> string list) list"
  dirs :: registry
  files :: registry
  static_files :: "(string \<times> path) list"
  is_valid :: "bool option"
  validations :: "(string \<times> validation) list"
  logged :: "log_event list"

text \<open>
  Modelled from the spec: \<^verbatim>\<open>set_dir\<close>, \<^verbatim>\<open>set_file\<close> and \<^verbatim>\<open>get_dirs\<close> are
  methods of \<^verbatim>\<open>util.classes.AnalysisItem\<close>, which is not part of the sources.
  Storing keeps the search result (one path or none) under the name; lookup
  is total.
\<close>

definition set_dir :: "string \<Rightarrow> path list \<Rightarrow> analysis \<Rightarrow> analysis" where
  "set_dir name paths a = a\<lparr>dirs := dict_set name paths (dirs a)\<rparr>"

definition set_file :: "string \<Rightarrow> path list \<Rightarrow> analysis \<Rightarrow> analysis" where
  "set_file name paths a = a\<lparr>files := dict_set name paths (files a)\<rparr>"

definition get_dirs :: "analysis \<Rightarrow> string \<Rightarrow> path list" where
  "get_dirs a name = registry_get (dirs a) name"

definition init_attrs :: "analysis \<Rightarrow> error + analysis" where
  "init_attrs a =
     (case cfg_email_recipients (a_sns_config a) of
        None \<Rightarrow> Inl KeyError
      | Some r \<Rightarrow>
          (case cfg_analysis_output_index (a_sns_config a) of
             None \<Rightarrow> Inl KeyError
           | Some idx \<Rightarrow> Inr (a\<lparr>email_recipients := r, analysis_output_index := idx\<rparr>)))"

definition init_dirs :: "node \<Rightarrow> analysis \<Rightarrow> analysis" where
  "init_dirs fs a =
     fold (\<lambda>(name, attributes) b.
             if name \<noteq> ''_parent''
             then set_dir name
                    (find_find fs (a_dir a) [name] [] SearchDir (Some 1) (Some 0) MatchAny) b
             else b)
          (analysis_output_index a) a"

definition expected_static_files :: "analysis \<Rightarrow> (string \<times> path) list" where
  "expected_static_files a =
     [(''paired_samples'', a_dir a @ [''samples.pairs.csv'']),
      (''samples_fastq_raw'', a_dir a @ [''samples.fastq-raw.csv'']),
      (''settings'', a_dir a @ [''settings.txt'']),
      (''summary_combined_wes'', a_dir a @ [''summary-combined.wes.csv''])]"

definition init_static_files :: "analysis \<Rightarrow> analysis" where
  "init_static_files a = a\<lparr>static_files := expected_static_files a\<rparr>"

definition init_files :: "node \<Rightarrow> analysis \<Rightarrow> analysis" where
  "init_files fs a =
     set_file ''targets_bed''
       (find_find fs (a_dir a) [''*.bed''] [''*.pad10.bed''] SearchFile (Some 1) (Some 0) MatchAny) a"

subsection \<open>The queue logs\<close>

text \<open>
  \<^verbatim>\<open>find.find(logdir, search_type = 'file')\<close> leaves the patterns and limits
  at their defaults: every file below the directory.
\<close>

definition get_qsub_logfiles :: "node \<Rightarrow> analysis \<Rightarrow> path option \<Rightarrow> error + path list" where
  "get_qsub_logfiles fs a logdir =
     (let logdir' = (case logdir of None \<Rightarrow> list_none (get_dirs a ''logs-qsub'') | Some d \<Rightarrow> Some d)
      in case logdir' of
           None \<Rightarrow> Inl AnalysisItemMissing
         | Some d \<Rightarrow> Inr (find_find fs d [''*''] [] SearchFile None None MatchAny))"

fun starts_with :: "string \<Rightarrow> string \<Rightarrow> bool" where
  "starts_with [] s = True"
| "starts_with (p # ps) [] = False"
| "starts_with (p # ps) (c # cs) = (p = c \<and> starts_with ps cs)"

text \<open>\<^verbatim>\<open>err_pattern in line\<close>\<close>

fun str_contains :: "string \<Rightarrow> string \<Rightarrow> bool" where
  "str_contains p [] = (p = [])"
| "str_contains p (c # cs) = (starts_with p (c # cs) \<or> str_contains p cs)"

definition scan_lines :: "string list \<Rightarrow> path \<Rightarrow> string list \<Rightarrow> (path \<times> bool) list \<Rightarrow> (path \<times> bool) list" where
  "scan_lines err_patterns log_file lines contains_errors =
     fold (\<lambda>line ce.
             fold (\<lambda>err_pattern ce'.
                     if str_contains err_pattern line then dict_set log_file True ce' else ce')
                  err_patterns ce)
          lines contains_errors"

fun scan_logs :: "node \<Rightarrow> string list \<Rightarrow> path list \<Rightarrow> (path \<times> bool) list \<Rightarrow> error + (path \<times> bool) list" where
  "scan_logs fs err_patterns [] contains_errors = Inr contains_errors"
| "scan_logs fs err_patterns (log_file # log_files) contains_errors =
     (case read_lines fs log_file of
        Inl e \<Rightarrow> Inl e
      | Inr lines \<Rightarrow>
          scan_logs fs err_patterns log_files
            (scan_lines err_patterns log_file lines contains_errors))"

definition check_qsub_log_errors_present ::
    "node \<Rightarrow> analysis \<Rightarrow> path list option \<Rightarrow> string list \<Rightarrow> error + (bool \<times> log_event list)" where
  "check_qsub_log_errors_present fs a log_files err_patterns =
     (case (case log_files of
              None \<Rightarrow> get_qsub_logfiles fs a None
            | Some [] \<Rightarrow> get_qsub_logfiles fs a None
            | Some lfs \<Rightarrow> Inr lfs) of
        Inl e \<Rightarrow> Inl e
      | Inr lfs \<Rightarrow>
          if lfs = [] then Inl AnalysisItemMissing
          else (case scan_logs fs err_patterns lfs [] of
                  Inl e \<Rightarrow> Inl e
                | Inr contains_errors \<Rightarrow>
                    if length contains_errors < 1 then Inr (False, [])
                    else if list_ex snd contains_errors
                    then Inr (True, [ErrorQsubLogs,
                                     DebugQsubLogFiles (map fst (filter snd contains_errors))])
                    else Inr (False, [])))"

subsection \<open>The combined summary\<close>

definition get_summary_combined_contents :: "node \<Rightarrow> analysis \<Rightarrow> path option \<Rightarrow> error + csv_dict list" where
  "get_summary_combined_contents fs a summary_combined_wes_file =
     (let f = (case summary_combined_wes_file of
                 None \<Rightarrow> map_of (static_files a) ''summary_combined_wes''
               | Some p \<Rightarrow> Some p)
      in case f of
           None \<Rightarrow> Inl AnalysisItemMissing
         | Some p \<Rightarrow> (case read_lines fs p of Inl e \<Rightarrow> Inl e | Inr ls \<Rightarrow> dict_reader ls))"

definition scan_row :: "string \<Rightarrow> csv_value \<Rightarrow> csv_dict \<Rightarrow> (csv_value \<times> bool) list \<Rightarrow> (csv_value \<times> bool) list" where
  "scan_row err_pattern sampleID row contains_errors =
     fold (\<lambda>item ce. if item = VStr err_pattern then dict_set sampleID True ce else ce)
          (map snd (filter (\<lambda>(key, v). key \<noteq> Some ''#SAMPLE'') row))
          contains_errors"

fun scan_rows :: "string \<Rightarrow> csv_dict list \<Rightarrow> (csv_value \<times> bool) list \<Rightarrow> error + (csv_value \<times> bool) list" where
  "scan_rows err_pattern [] contains_errors = Inr contains_errors"
| "scan_rows err_pattern (row # rows) contains_errors =
     (case map_of row (Some ''#SAMPLE'') of
        None \<Rightarrow> Inl KeyError
      | Some sampleID \<Rightarrow>
          scan_rows err_pattern rows (scan_row err_pattern sampleID row contains_errors))"

definition summary_combined_contains_errors ::
    "node \<Rightarrow> analysis \<Rightarrow> csv_dict list option \<Rightarrow> string \<Rightarrow> error + (bool \<times> log_event list)" where
  "summary_combined_contains_errors fs a summary_combined_wes_rows err_pattern =
     (case (case summary_combined_wes_rows of
              None \<Rightarrow> get_summary_combined_contents fs a None
            | Some [] \<Rightarrow> get_summary_combined_contents fs a None
            | Some rows \<Rightarrow> Inr rows) of
        Inl e \<Rightarrow> Inl e
      | Inr rows \<Rightarrow>
          (let l1 = (if rows = [] then [ErrorSummaryNotFound] else [])
           in case scan_rows err_pattern rows [] of
                Inl e \<Rightarrow> Inl e
              | Inr contains_errors \<Rightarrow>
                  if length contains_errors < 1 then Inr (False, l1)
                  else if list_ex snd contains_errors
                  then Inr (True, l1 @ [WarningSummaryErrors (map fst (filter snd contains_errors))])
                  else Inr (False, l1)))"

subsection \<open>Validation\<close>

text \<open>
  \<^verbatim>\<open>validate\<close> returns its result, or the exception that left it, together
  with the object as the call leaves it: \<^verbatim>\<open>self.validations\<close> keeps the checks
  recorded before an exception.
\<close>

definition record_validation :: "string \<Rightarrow> bool \<Rightarrow> validation_note \<Rightarrow> analysis \<Rightarrow> analysis" where
  "record_validation name st nt a =
     a\<lparr>validations := dict_set name \<lparr>status = st, v_note = nt\<rparr> (validations a)\<rparr>"

definition validate :: "node \<Rightarrow> analysis \<Rightarrow> (error + bool) \<times> analysis" where
  "validate fs a =
     (let a0 = a\<lparr>validations := []\<rparr>;
          a1 = record_validation ''dir_exists'' (path_exists fs (a_dir a0))
                 (NoteDirExists (a_dir a0)) a0;
          expected_static_files_existences =
            map (\<lambda>(key, v). (key, v, path_exists fs v)) (expected_static_files a1);
          a2 = record_validation ''expected_static_files_exist''
                 (list_all (\<lambda>item. snd (snd item)) expected_static_files_existences)
                 (NoteStaticFiles expected_static_files_existences) a1
      in case check_qsub_log_errors_present fs a2 None [''ERROR:''] of
           Inl e \<Rightarrow> (Inl e, a2)
         | Inr (qsub_errors, l3) \<Rightarrow>
             (let a3 = record_validation ''no_qsub_log_errors_present'' (\<not> qsub_errors)
                         (NoteText ''Whether or not errors are present in the qsub logs'')
                         (a2\<lparr>logged := logged a2 @ l3\<rparr>)
              in case summary_combined_contains_errors fs a3 None ''X'' of
                   Inl e \<Rightarrow> (Inl e, a3)
                 | Inr (summary_errors, l4) \<Rightarrow>
                     (let a4 = record_validation ''no_summary_combined_errors'' (\<not> summary_errors)
                                 (NoteText ''Whether or not entries are present in the summary combined file'')
                                 (a3\<lparr>logged := logged a3 @ l4\<rparr>);
                          all_valid = map (\<lambda>(key, subdict). status subdict) (validations a4);
                          valid = list_all (\<lambda>b. b) all_valid
                      in (Inr valid,
                          a4\<lparr>logged := logged a4 @ [DebugValidations (validations a4), InfoPassed valid]\<rparr>))))"

subsection \<open>Construction\<close>

text \<open>
  \<^verbatim>\<open>SnsWESAnalysisOutput(dir, id, sns_config, results_id, extra_handlers, debug)\<close>.
  \<open>config_sns\<close> is the module \<^verbatim>\<open>config.sns\<close>, loaded from a file that is
  not part of the sources. \<open>new_analysis\<close> is the object before
  \<^verbatim>\<open>_init_attrs\<close>: its registries are the empty ones of the base class, and
  the attributes assigned later hold nothing yet. An exception leaves the
  constructor without an object. \<^verbatim>\<open>str(None)\<close> is the text \<^verbatim>\<open>None\<close>.
\<close>

definition new_analysis :: "sns_cfg \<Rightarrow> path \<Rightarrow> string \<Rightarrow> sns_cfg option \<Rightarrow> string option \<Rightarrow> analysis" where
  "new_analysis config_sns dir ident sns_config results_id =
     (let c1 = (case sns_config of
                  None \<Rightarrow> config_sns
                | Some c \<Rightarrow>
                    if c = \<lparr>cfg_email_recipients = None, cfg_analysis_output_index = None\<rparr>
                    then config_sns else c);
          missing = (cfg_analysis_output_index c1 = None \<or> cfg_analysis_output_index c1 = Some [])
      in \<lparr>a_id = ident, a_dir = dir,
          a_sns_config = (if missing then config_sns else c1),
          a_results_id = (case results_id of None \<Rightarrow> ''None'' | Some r \<Rightarrow> r),
          email_recipients = [], analysis_output_index = [],
          dirs = [], files = [], static_files = [],
          is_valid = None, validations = [],
          logged = [DebugInitialized ident] @ (if missing then [DebugIndexNotFound] else [])\<rparr>)"

definition SnsWESAnalysisOutput_init ::
    "node \<Rightarrow> sns_cfg \<Rightarrow> path \<Rightarrow> string \<Rightarrow> sns_cfg option \<Rightarrow> string option \<Rightarrow> bool \<Rightarrow> error + analysis" where
  "SnsWESAnalysisOutput_init fs config_sns dir ident sns_config results_id debug =
     (case init_attrs (new_analysis config_sns dir ident sns_config results_id) of
        Inl e \<Rightarrow> Inl e
      | Inr a1 \<Rightarrow>
          (let a2 = init_static_files (init_files fs (init_dirs fs a1))
           in if \<not> debug
              then (case validate fs a2 of
                      (Inl e, a3) \<Rightarrow> Inl e
                    | (Inr v, a3) \<Rightarrow> Inr (a3\<lparr>is_valid := Some v\<rparr>))
              else Inr a2))"

subsection \<open>The samples of the analysis\<close>

fun first_column :: "string list list \<Rightarrow> error + string list" where
  "first_column [] = Inr []"
| "first_column (row # rows) =
     (case row of
        [] \<Rightarrow> Inl IndexError
      | x # xs \<Rightarrow> (case first_column rows of Inl e \<Rightarrow> Inl e | Inr ids \<Rightarrow> Inr (x # ids)))"

text \<open>
  \<^verbatim>\<open>list(set(samplesIDs))\<close>: the distinct entries. Python leaves the order of
  the resulting list open; the model keeps one occurrence of each entry in the
  order of the rows.
\<close>

definition list_of_set :: "'a list \<Rightarrow> 'a list" where
  "list_of_set xs = remdups xs"

definition get_samplesIDs_from_samples_fastq_raw :: "node \<Rightarrow> analysis \<Rightarrow> path option \<Rightarrow> error + string list" where
  "get_samplesIDs_from_samples_fastq_raw fs a samples_fastq_raw_file =
     (let f = (case samples_fastq_raw_file of
                 None \<Rightarrow> map_of (static_files a) ''samples_fastq_raw''
               | Some p \<Rightarrow> Some p)
      in case f of
           None \<Rightarrow> Inl AnalysisItemMissing
         | Some p \<Rightarrow>
             (case read_lines fs p of
                Inl e \<Rightarrow> Inl e
              | Inr ls \<Rightarrow>
                  (case csv_reader ls of
                     (rows, stopped) \<Rightarrow>
                       (case first_column rows of
                          Inl e \<Rightarrow> Inl e
                        | Inr samplesIDs \<Rightarrow>
                            (case stopped of
                               Some e \<Rightarrow> Inl e
                             | None \<Rightarrow> Inr (list_of_set samplesIDs))))))"

record analysis_config =
  cfg_analysis_id :: string
  cfg_analysis_dir :: path
  cfg_results_id :: string
  cfg_dirs :: registry
  cfg_files :: registry
  cfg_static_files :: "(string \<times> path) list"
  cfg_analysis_is_valid :: bool


record sample =
  s_id :: string
  s_analysis_config :: analysis_config
  s_sns_config :: sns_cfg
  search_pattern :: string
  s_analysis_id :: string
  s_analysis_dir :: path
  s_results_id :: string
  s_static_files :: "(string \<times> path) list"
  analysis_is_valid :: bool
  s_dirs :: registry
  s_files :: registry

definition SnsAnalysisSample_init :: "string \<Rightarrow> analysis_config \<Rightarrow> sns_cfg \<Rightarrow> sample" where
  "SnsAnalysisSample_init ident config cfg =
     \<lparr>s_id = ident, s_analysis_config = config, s_sns_config = cfg,
      search_pattern = ident @ ''*'',
      s_analysis_id = cfg_analysis_id config,
      s_analysis_dir = cfg_analysis_dir config,
      s_results_id = cfg_results_id config,
      s_static_files = cfg_static_files config,
      analysis_is_valid = cfg_analysis_is_valid config,
      s_dirs = fold (\<lambda>(name, paths) d. if name \<noteq> ''_parent'' then dict_set name paths d else d)
                 (cfg_dirs config) [],
      s_files = fold (\<lambda>(name, paths) d. dict_set name paths d) (cfg_files config) []\<rparr>"

definition get_output_files :: "node \<Rightarrow> sample \<Rightarrow> string \<Rightarrow> string \<Rightarrow> error + path list" where
  "get_output_files fs s analysis_step pattern =
     (let search_dir = list_none (registry_get (cfg_dirs (s_analysis_config s)) analysis_step);
          patterns = [pattern, search_pattern s]
      in case search_dir of
           Some d \<Rightarrow> Inr (find_find fs d patterns [] SearchFile None None MatchAll)
         | None \<Rightarrow> Inl AnalysisItemMissing)"



section \<open>The checks in the words of the specification\<close>

text \<open>
  Check 3 fails when a line of a queue log contains one of the error
  substrings.
\<close>

definition line_has_error :: "string list \<Rightarrow> string \<Rightarrow> bool" where
  "line_has_error err_patterns line = list_ex (\<lambda>p. str_contains p line) err_patterns"

text \<open>
  Check 4 fails when a row of the header-keyed summary table has a cell equal
  to the error token in a column other than the identifier column
  \<^verbatim>\<open>#SAMPLE\<close>.
\<close>

definition row_has_error :: "string \<Rightarrow> csv_dict \<Rightarrow> bool" where
  "row_has_error err_pattern row =
     list_ex (\<lambda>(key, v). key \<noteq> Some ''#SAMPLE'' \<and> v = VStr err_pattern) row"

section \<open>Example objects\<close>

text \<open>
  The object that the constructor builds in debug mode from \<open>example_cfg\<close>
  for an output directory without a \<^verbatim>\<open>.bed\<close> file, with the given registry
  of directories and \<^verbatim>\<open>is_valid\<close> attribute.
\<close>

definition example_cfg :: sns_cfg where
  "example_cfg =
     \<lparr>cfg_email_recipients = Some ''foo@bar.edu'',
      cfg_analysis_output_index =
        Some [(''_parent'', []), (''logs-qsub'', []), (''BAM-DD'', [''.dd.bam''])]\<rparr>"

definition example_analysis :: "path \<Rightarrow> registry \<Rightarrow> bool option \<Rightarrow> analysis" where
  "example_analysis dir ds v =
     \<lparr>a_id = ''sns_analysis1'', a_dir = dir, a_sns_config = example_cfg,
      a_results_id = ''None'', email_recipients = ''foo@bar.edu'',
      analysis_output_index = [(''_parent'', []), (''logs-qsub'', []), (''BAM-DD'', [''.dd.bam''])],
      dirs = ds, files = [(''targets_bed'', [])],
      static_files =
        [(''paired_samples'', dir @ [''samples.pairs.csv'']),
         (''samples_fastq_raw'', dir @ [''samples.fastq-raw.csv'']),
         (''settings'', dir @ [''settings.txt'']),
         (''summary_combined_wes'', dir @ [''summary-combined.wes.csv''])],
      is_valid = v, validations = [], logged = [DebugInitialized ''sns_analysis1'']\<rparr>"

text \<open>
  An output directory \<^verbatim>\<open>/run\<close> with one queue log, the four static files
  and a manifest of three rows for two samples.
\<close>

definition example_fs :: "string list \<Rightarrow> string list \<Rightarrow> node" where
  "example_fs log_lines summary_lines =
     Dir [(''run'', Dir
       [(''logs-qsub'', Dir [(''job.o1'', File log_lines)]),
        (''samples.pairs.csv'', File []),
        (''samples.fastq-raw.csv'',
           File [''S1,/d/S1_R1.fastq'', ''S1,/d/S1_R2.fastq'', ''S2,/d/S2_R1.fastq'']),
        (''settings.txt'', File []),
        (''summary-combined.wes.csv'', File summary_lines)])]"

text \<open>The same output directory with an empty directory of queue logs.\<close>

definition example_fs_no_logs :: "string list \<Rightarrow> node" where
  "example_fs_no_logs summary_lines =
     Dir [(''run'', Dir
       [(''logs-qsub'', Dir []),
        (''samples.pairs.csv'', File []),
        (''samples.fastq-raw.csv'', File [''S1,/d/S1_R1.fastq'']),
        (''settings.txt'', File []),
        (''summary-combined.wes.csv'', File summary_lines)])]"

text \<open>The configuration handed to a sample, with the given registry of directories.\<close>

definition example_config :: "registry \<Rightarrow> analysis_config" where
  "example_config ds =
     \<lparr>cfg_analysis_id = ''sns_analysis1'', cfg_analysis_dir = [''run''],
      cfg_results_id = ''None'', cfg_dirs = ds, cfg_files = [(''targets_bed'', [])],
      cfg_static_files = [], cfg_analysis_is_valid = True\<rparr>"

section \<open>Properties\<close>

subsection \<open>Dicts and the pattern matcher\<close>

lemma map_of_dict_set: "map_of (dict_set k v d) = (map_of d)(k \<mapsto> v)"
  by (induction d) (auto simp: fun_eq_iff)

lemma find_find_missing: "lookup fs d = None \<Longrightarrow> find_find fs d inc exc t nl ll m = []"
  by (simp add: find_find_def)

lemma find_find_limit1: "length (find_find fs d inc exc t (Some (Suc 0)) ll m) \<le> Suc 0"
  by (simp add: find_find_def Let_def split: option.splits)


lemmas val_defs = validate_def check_qsub_log_errors_present_def get_qsub_logfiles_def
  get_dirs_def registry_get_def list_none_def record_validation_def
  path_exists_def expected_static_files_def find_find_def kind_ok_def name_ok_def
  read_lines_def scan_lines_def summary_combined_contains_errors_def
  get_summary_combined_contents_def dict_reader_def csv_reader_def start_field_def parse_add_char_def is_crnl_def dict_row_def
  scan_row_def Let_def

subsection \<open>What validation and construction leave unchanged\<close>

lemma record_validation_frame [simp]:
  "dirs (record_validation n s t a) = dirs a"
  "a_dir (record_validation n s t a) = a_dir a"
  "analysis_output_index (record_validation n s t a) = analysis_output_index a"
  "static_files (record_validation n s t a) = static_files a"
  "is_valid (record_validation n s t a) = is_valid a"
  "files (record_validation n s t a) = files a"
  "logged (record_validation n s t a) = logged a"
  by (simp_all add: record_validation_def)

lemma validate_frame:
  "dirs (snd (validate fs a)) = dirs a"
  "a_dir (snd (validate fs a)) = a_dir a"
  "analysis_output_index (snd (validate fs a)) = analysis_output_index a"
  "static_files (snd (validate fs a)) = static_files a"
  "is_valid (snd (validate fs a)) = is_valid a"
  by (simp_all add: validate_def Let_def split: sum.splits prod.splits)

lemma validate_frame':
  assumes "validate fs a = (r, a')"
  shows "dirs a' = dirs a" "a_dir a' = a_dir a"
    "analysis_output_index a' = analysis_output_index a"
    "static_files a' = static_files a" "is_valid a' = is_valid a"
  using validate_frame [of fs a] assms by simp_all

lemma set_dir_frame [simp]:
  "a_dir (set_dir n ps a) = a_dir a"
  "analysis_output_index (set_dir n ps a) = analysis_output_index a"
  "is_valid (set_dir n ps a) = is_valid a"
  "dirs (set_dir n ps a) = dict_set n ps (dirs a)"
  by (simp_all add: set_dir_def)

lemma fold_set_dir_frame:
  "a_dir (fold (\<lambda>(name, attributes) b. if name \<noteq> ''_parent'' then set_dir name (F name) b else b) xs b) = a_dir b"
  "analysis_output_index (fold (\<lambda>(name, attributes) b. if name \<noteq> ''_parent'' then set_dir name (F name) b else b) xs b) = analysis_output_index b"
  "is_valid (fold (\<lambda>(name, attributes) b. if name \<noteq> ''_parent'' then set_dir name (F name) b else b) xs b) = is_valid b"
  by (induction xs arbitrary: b; simp split: prod.splits)+

lemma fold_set_dir_map_of:
  "map_of (dirs (fold (\<lambda>(name, attributes) b. if name \<noteq> ''_parent'' then set_dir name (F name) b else b) xs b)) name =
     (if name \<in> fst ` set xs \<and> name \<noteq> ''_parent'' then Some (F name) else map_of (dirs b) name)"
proof (induction xs arbitrary: b)
  case Nil
  then show ?case by simp
next
  case (Cons x xs)
  obtain n at where x: "x = (n, at)" by (cases x)
  show ?case
    by (simp add: x Cons.IH map_of_dict_set)
qed

lemma init_dirs_frame:
  "a_dir (init_dirs fs a) = a_dir a"
  "analysis_output_index (init_dirs fs a) = analysis_output_index a"
  "is_valid (init_dirs fs a) = is_valid a"
  by (simp_all add: init_dirs_def fold_set_dir_frame)

lemma init_dirs_map_of:
  "map_of (dirs (init_dirs fs a)) name =
     (if name \<in> fst ` set (analysis_output_index a) \<and> name \<noteq> ''_parent''
      then Some (find_find fs (a_dir a) [name] [] SearchDir (Some 1) (Some 0) MatchAny)
      else map_of (dirs a) name)"
  unfolding init_dirs_def
  by (rule fold_set_dir_map_of [where F = "\<lambda>name. find_find fs (a_dir a) [name] [] SearchDir (Some 1) (Some 0) MatchAny"])

lemma init_rest_frame [simp]:
  "dirs (init_static_files a) = dirs a" "dirs (init_files fs a) = dirs a"
  "a_dir (init_static_files a) = a_dir a" "a_dir (init_files fs a) = a_dir a"
  "analysis_output_index (init_static_files a) = analysis_output_index a"
  "analysis_output_index (init_files fs a) = analysis_output_index a"
  "is_valid (init_static_files a) = is_valid a" "is_valid (init_files fs a) = is_valid a"
  "static_files (init_static_files a) = expected_static_files a"
  by (simp_all add: init_static_files_def init_files_def set_file_def)

lemma init_attrs_frame:
  assumes "init_attrs a = Inr a1"
  shows "dirs a1 = dirs a" "a_dir a1 = a_dir a" "is_valid a1 = is_valid a"
  using assms by (auto simp: init_attrs_def split: option.splits)

lemma init_attrs_error: "init_attrs a = Inl e \<Longrightarrow> e = KeyError"
  by (auto simp: init_attrs_def split: option.splits)

lemma new_analysis_simps [simp]:
  "dirs (new_analysis c d i sc r) = []"
  "a_dir (new_analysis c d i sc r) = d"
  "is_valid (new_analysis c d i sc r) = None"
  by (simp_all add: new_analysis_def Let_def)

lemma init_result:
  assumes "SnsWESAnalysisOutput_init fs config_sns dir ident sns_config results_id debug = Inr a"
  shows "a_dir a = dir"
    and "map_of (dirs a) name =
      (if name \<in> fst ` set (analysis_output_index a) \<and> name \<noteq> ''_parent''
       then Some (find_find fs dir [name] [] SearchDir (Some 1) (Some 0) MatchAny)
       else None)"
    and "debug \<Longrightarrow> is_valid a = None"
    and "\<not> debug \<Longrightarrow> is_valid a \<noteq> None"
proof -
  obtain a1 where a1: "init_attrs (new_analysis config_sns dir ident sns_config results_id) = Inr a1"
    using assms by (auto simp: SnsWESAnalysisOutput_init_def split: sum.splits)
  define a2 where "a2 = init_static_files (init_files fs (init_dirs fs a1))"
  have f1: "dirs a1 = []" "a_dir a1 = dir" "is_valid a1 = None"
    using init_attrs_frame [OF a1] by simp_all
  have f2: "a_dir a2 = dir" "is_valid a2 = None"
    "analysis_output_index a2 = analysis_output_index a1"
    "map_of (dirs a2) name =
      (if name \<in> fst ` set (analysis_output_index a1) \<and> name \<noteq> ''_parent''
       then Some (find_find fs dir [name] [] SearchDir (Some 1) (Some 0) MatchAny)
       else None)"
    by (simp_all add: a2_def init_dirs_frame init_dirs_map_of f1)
  have a: "(debug \<and> a = a2) \<or>
      (\<not> debug \<and> (\<exists>v a3. validate fs a2 = (Inr v, a3) \<and> a = a3\<lparr>is_valid := Some v\<rparr>))"
    using assms a1
    by (auto simp: SnsWESAnalysisOutput_init_def Let_def a2_def
        split: sum.splits prod.splits if_splits)
  have g: "dirs a = dirs a2" "analysis_output_index a = analysis_output_index a2"
    "a_dir a = a_dir a2"
    using a by (auto dest: validate_frame')
  show "a_dir a = dir" by (simp add: g f2)
  show "map_of (dirs a) name =
      (if name \<in> fst ` set (analysis_output_index a) \<and> name \<noteq> ''_parent''
       then Some (find_find fs dir [name] [] SearchDir (Some 1) (Some 0) MatchAny)
       else None)"
    by (simp only: g f2)
  show "debug \<Longrightarrow> is_valid a = None" using a f2 by auto
  show "\<not> debug \<Longrightarrow> is_valid a \<noteq> None" using a by auto
qed

lemma validate_no_logdir:
  "get_dirs a ''logs-qsub'' = [] \<Longrightarrow> fst (validate fs a) = Inl AnalysisItemMissing"
  by (simp add: validate_def Let_def check_qsub_log_errors_present_def get_qsub_logfiles_def
      get_dirs_def list_none_def)

subsection \<open>Validation stops at an unresolved queue-log directory\<close>

text \<open>
  C2: when the registry of directories holds no path under \<^verbatim>\<open>logs-qsub\<close>,
  \<^verbatim>\<open>validate\<close> leaves with \<^verbatim>\<open>AnalysisItemMissing\<close>, raised by
  \<^verbatim>\<open>get_qsub_logfiles\<close> and caught nowhere, and the validations hold the
  two checks made before it and neither of the two that follow.
\<close>

theorem validate_unresolved_logs_raises:
  "get_dirs a ''logs-qsub'' = [] \<Longrightarrow>
     get_qsub_logfiles fs a None = Inl AnalysisItemMissing \<and>
     fst (validate fs a) = Inl AnalysisItemMissing \<and>
     map fst (validations (snd (validate fs a))) =
       [''dir_exists'', ''expected_static_files_exist'']"
  by (simp add: validate_def Let_def check_qsub_log_errors_present_def get_qsub_logfiles_def
      get_dirs_def record_validation_def list_none_def)

theorem validate_unresolved_logs_raises_witness:
  "get_dirs (example_analysis [''run''] [] None) ''logs-qsub'' = [] \<and>
   get_qsub_logfiles (Dir [(''run'', Dir [])]) (example_analysis [''run''] [] None) None
     = Inl AnalysisItemMissing \<and>
   fst (validate (Dir [(''run'', Dir [])]) (example_analysis [''run''] [] None))
     = Inl AnalysisItemMissing \<and>
   map fst (validations (snd (validate (Dir [(''run'', Dir [])]) (example_analysis [''run''] [] None))))
     = [''dir_exists'', ''expected_static_files_exist'']"
proof -
  have h: "get_dirs (example_analysis [''run''] [] None) ''logs-qsub'' = []"
    by (simp add: get_dirs_def registry_get_def example_analysis_def)
  from validate_unresolved_logs_raises [OF h, of "Dir [(''run'', Dir [])]"] h
  show ?thesis by simp
qed

subsection \<open>Every schema key is registered\<close>

text \<open>
  C7: once the constructor has returned an object, every key of its
  \<^verbatim>\<open>analysis_output_index\<close> other than \<^verbatim>\<open>_parent\<close> has an entry in the
  registry of directories: the result of the directory search for that key
  among the immediate children of the output directory (level limit 0), cut to
  one result, so an entry of at most one path and possibly none.
\<close>

theorem init_registers_every_schema_key:
  assumes "SnsWESAnalysisOutput_init fs config_sns dir ident sns_config results_id debug = Inr a"
    and "name \<in> fst ` set (analysis_output_index a)"
    and "name \<noteq> ''_parent''"
  shows "map_of (dirs a) name =
           Some (find_find fs (a_dir a) [name] [] SearchDir (Some 1) (Some 0) MatchAny) \<and>
         length (get_dirs a name) \<le> 1"
  using init_result(1,2) [OF assms(1)] assms(2,3)
  by (simp add: get_dirs_def registry_get_def find_find_limit1)

theorem init_registers_every_schema_key_witness:
  "SnsWESAnalysisOutput_init (Dir [(''run'', Dir [(''BAM-DD'', Dir [])])]) example_cfg [''run'']
      ''sns_analysis1'' (Some example_cfg) None True
     = Inr (example_analysis [''run''] [(''logs-qsub'', []), (''BAM-DD'', [[''run'', ''BAM-DD'']])] None) \<and>
   ''BAM-DD'' \<in> fst ` set (analysis_output_index
      (example_analysis [''run''] [(''logs-qsub'', []), (''BAM-DD'', [[''run'', ''BAM-DD'']])] None)) \<and>
   ''BAM-DD'' \<noteq> ''_parent'' \<and>
   map_of (dirs (example_analysis [''run''] [(''logs-qsub'', []), (''BAM-DD'', [[''run'', ''BAM-DD'']])] None)) ''BAM-DD''
     = Some [[''run'', ''BAM-DD'']] \<and>
   map_of (dirs (example_analysis [''run''] [(''logs-qsub'', []), (''BAM-DD'', [[''run'', ''BAM-DD'']])] None)) ''logs-qsub''
     = Some []"
proof -
  let ?fs = "Dir [(''run'', Dir [(''BAM-DD'', Dir [])])]"
  let ?a = "example_analysis [''run''] [(''logs-qsub'', []), (''BAM-DD'', [[''run'', ''BAM-DD'']])] None"
  have h1: "SnsWESAnalysisOutput_init ?fs example_cfg [''run''] ''sns_analysis1'' (Some example_cfg) None True = Inr ?a"
    by (simp add: SnsWESAnalysisOutput_init_def new_analysis_def example_cfg_def example_analysis_def
        init_attrs_def init_dirs_def init_files_def init_static_files_def expected_static_files_def
        set_dir_def set_file_def find_find_def kind_ok_def name_ok_def Let_def)
  have h2: "''BAM-DD'' \<in> fst ` set (analysis_output_index ?a)"
    by (simp add: example_analysis_def)
  have h3: "''BAM-DD'' \<noteq> ''_parent''" by simp
  from init_registers_every_schema_key [OF h1 h2 h3] h1 h2 h3
  show ?thesis
    by (simp add: example_analysis_def)
qed

subsection \<open>A missing output directory\<close>

text \<open>
  C3: when the output directory does not exist, the constructor, not in debug
  mode, returns no object at all, so none with \<^verbatim>\<open>is_valid\<close> true. It leaves
  with \<^verbatim>\<open>AnalysisItemMissing\<close>, raised while validating because no
  \<^verbatim>\<open>logs-qsub\<close> directory was found; only a configuration without one of
  the two keys read by \<^verbatim>\<open>_init_attrs\<close> fails earlier, with a \<^verbatim>\<open>KeyError\<close>.
\<close>

theorem init_missing_root_fails:
  assumes "\<not> path_exists fs dir"
  shows "SnsWESAnalysisOutput_init fs config_sns dir ident sns_config results_id False =
           (if cfg_email_recipients (a_sns_config (new_analysis config_sns dir ident sns_config results_id)) = None
               \<or> cfg_analysis_output_index (a_sns_config (new_analysis config_sns dir ident sns_config results_id)) = None
            then Inl KeyError else Inl AnalysisItemMissing)
       \<and> (\<forall>a. SnsWESAnalysisOutput_init fs config_sns dir ident sns_config results_id False \<noteq> Inr a)"
proof (cases "init_attrs (new_analysis config_sns dir ident sns_config results_id)")
  case (Inl e)
  then show ?thesis
    by (auto simp: SnsWESAnalysisOutput_init_def init_attrs_def split: option.splits)
next
  case (Inr a1)
  define a2 where "a2 = init_static_files (init_files fs (init_dirs fs a1))"
  have f1: "dirs a1 = []" "a_dir a1 = dir"
    using init_attrs_frame [OF Inr] by simp_all
  have keys: "cfg_email_recipients (a_sns_config (new_analysis config_sns dir ident sns_config results_id)) \<noteq> None"
    "cfg_analysis_output_index (a_sns_config (new_analysis config_sns dir ident sns_config results_id)) \<noteq> None"
    using Inr by (auto simp: init_attrs_def split: option.splits)
  have nf: "lookup fs dir = None" using assms by (simp add: path_exists_def)
  have "map_of (dirs a2) ''logs-qsub'' = Some [] \<or> map_of (dirs a2) ''logs-qsub'' = None"
    by (simp add: a2_def init_dirs_map_of f1 find_find_missing [OF nf])
  then have "get_dirs a2 ''logs-qsub'' = []"
    by (auto simp: get_dirs_def registry_get_def)
  then have "fst (validate fs a2) = Inl AnalysisItemMissing"
    by (rule validate_no_logdir)
  then show ?thesis
    using Inr keys
    by (auto simp: SnsWESAnalysisOutput_init_def Let_def a2_def split: prod.splits sum.splits)
qed

theorem init_missing_root_fails_witness:
  "\<not> path_exists (Dir [(''sns_output'', Dir [])]) [''sns_output'', ''foo''] \<and>
   SnsWESAnalysisOutput_init (Dir [(''sns_output'', Dir [])]) example_cfg [''sns_output'', ''foo'']
     ''foo'' (Some example_cfg) None False = Inl AnalysisItemMissing"
proof -
  have h: "\<not> path_exists (Dir [(''sns_output'', Dir [])]) [''sns_output'', ''foo'']"
    by (simp add: path_exists_def)
  from init_missing_root_fails [OF h, of example_cfg "''foo''" "Some example_cfg" None] h
  show ?thesis
    by (simp add: new_analysis_def example_cfg_def Let_def)
qed

subsection \<open>The sample identifiers of the manifest\<close>

lemma first_column_eq:
  "first_column rows = (if [] \<in> set rows then Inl IndexError else Inr (map hd rows))"
  by (induction rows) (auto split: list.splits)

lemmas reader_defs = csv_reader_def start_field_def parse_add_char_def is_crnl_def

lemma samplesIDs_eq:
  assumes "(case fname of None \<Rightarrow> map_of (static_files a) ''samples_fastq_raw'' | Some q \<Rightarrow> Some q) = Some p"
    and "read_lines fs p = Inr ls"
    and "csv_reader ls = (rows, None)"
  shows "get_samplesIDs_from_samples_fastq_raw fs a fname =
     (if [] \<in> set rows then Inl IndexError else Inr (remdups (map hd rows)))"
  using assms
  by (simp add: get_samplesIDs_from_samples_fastq_raw_def Let_def first_column_eq list_of_set_def)

text \<open>
  A quoted field runs over the ends of lines: the three lines \<^verbatim>\<open>S1,"a\<close>,
  \<^verbatim>\<open>S1,b\<close>, \<^verbatim>\<open>S2,c\<close> are one record, and the only identifier is \<^verbatim>\<open>S1\<close>.
\<close>

lemma quoted_manifest_one_row:
  "csv_reader [''S1,'' @ [CHR 0x22] @ ''a'', ''S1,b'', ''S2,c''] =
     ([[''S1'', ''a'' @ [CHR 0x0A] @ ''S1,b'' @ [CHR 0x0A] @ ''S2,c'' @ [CHR 0x0A]]], None) \<and>
   get_samplesIDs_from_samples_fastq_raw
      (Dir [(''m.csv'', File [''S1,'' @ [CHR 0x22] @ ''a'', ''S1,b'', ''S2,c''])])
      (example_analysis [''run''] [] None) (Some [''m.csv'']) = Inr [''S1'']"
  by (simp add: get_samplesIDs_from_samples_fastq_raw_def read_lines_def reader_defs list_of_set_def)

text \<open>
  C4, as stated, fails: a manifest with an empty line has a row without a
  first column, and \<^verbatim>\<open>row[0]\<close> raises \<^verbatim>\<open>IndexError\<close> instead of the set of
  identifiers being returned.
\<close>

theorem samplesIDs_blank_line_counterexample:
  "csv_reader [''S1,a'', [], ''S2,c''] = ([[''S1'', ''a''], [], [''S2'', ''c'']], None) \<and>
   get_samplesIDs_from_samples_fastq_raw (Dir [(''m.csv'', File [''S1,a'', [], ''S2,c''])])
      (example_analysis [''run''] [] None) (Some [''m.csv'']) = Inl IndexError"
  by (simp add: get_samplesIDs_from_samples_fastq_raw_def read_lines_def reader_defs)

text \<open>
  C4, amended: for a manifest that the csv reader parses into rows that each
  have at least one field, \<^verbatim>\<open>get_samplesIDs_from_samples_fastq_raw\<close> returns
  the first fields of the rows without duplicates: a list without repetition
  whose members are exactly the first fields. For rows that start \<^verbatim>\<open>S1\<close>,
  \<^verbatim>\<open>S1\<close>, \<^verbatim>\<open>S2\<close> it returns the two identifiers \<^verbatim>\<open>S1\<close> and \<^verbatim>\<open>S2\<close>. The
  outcome is the same set of identifiers for every order of the rows of the
  manifest, and so for a second call on the same manifest.
\<close>

theorem samplesIDs_deduplicated_set:
  assumes "(case fname of None \<Rightarrow> map_of (static_files a) ''samples_fastq_raw'' | Some q \<Rightarrow> Some q) = Some p"
    and "read_lines fs p = Inr ls"
    and "csv_reader ls = (rows, None)"
    and "read_lines fs' p = Inr ls'"
    and "csv_reader ls' = (rows', None)"
    and "mset rows' = mset rows"
  shows "map_sum id set (get_samplesIDs_from_samples_fastq_raw fs' a fname) =
           map_sum id set (get_samplesIDs_from_samples_fastq_raw fs a fname) \<and>
         ([] \<notin> set rows \<longrightarrow>
            (\<exists>ids ids'. get_samplesIDs_from_samples_fastq_raw fs a fname = Inr ids \<and>
               get_samplesIDs_from_samples_fastq_raw fs' a fname = Inr ids' \<and>
               distinct ids \<and> set ids = hd ` set rows \<and>
               distinct ids' \<and> set ids' = set ids \<and> length ids' = length ids)) \<and>
         (rows = [''S1'' # r1, ''S1'' # r2, ''S2'' # r3] \<longrightarrow>
            (\<exists>ids. get_samplesIDs_from_samples_fastq_raw fs a fname = Inr ids \<and>
               set ids = {''S1'', ''S2''} \<and> length ids = 2))"
proof -
  have s: "set rows' = set rows" using assms(6) by (metis set_mset_mset)
  have e1: "get_samplesIDs_from_samples_fastq_raw fs a fname =
      (if [] \<in> set rows then Inl IndexError else Inr (remdups (map hd rows)))"
    by (rule samplesIDs_eq [OF assms(1,2,3)])
  have e2: "get_samplesIDs_from_samples_fastq_raw fs' a fname =
      (if [] \<in> set rows then Inl IndexError else Inr (remdups (map hd rows')))"
    using samplesIDs_eq [OF assms(1,4,5)] s by simp
  have l: "length (remdups (map hd rows')) = length (remdups (map hd rows))"
    by (simp add: length_remdups_card_conv s)
  show ?thesis
    unfolding e1 e2 using s l by auto
qed

theorem samplesIDs_deduplicated_set_witness:
  "read_lines (Dir [(''m.csv'', File [''S1,a'', ''S1,b'', ''S2,c''])]) [''m.csv''] = Inr [''S1,a'', ''S1,b'', ''S2,c''] \<and>
   csv_reader [''S1,a'', ''S1,b'', ''S2,c''] = ([[''S1'', ''a''], [''S1'', ''b''], [''S2'', ''c'']], None) \<and>
   read_lines (Dir [(''m.csv'', File [''S2,c'', ''S1,a'', ''S1,b''])]) [''m.csv''] = Inr [''S2,c'', ''S1,a'', ''S1,b''] \<and>
   csv_reader [''S2,c'', ''S1,a'', ''S1,b''] = ([[''S2'', ''c''], [''S1'', ''a''], [''S1'', ''b'']], None) \<and>
   mset [[''S2'', ''c''], [''S1'', ''a''], [''S1'', ''b'']] = mset [[''S1'', ''a''], [''S1'', ''b''], [''S2'', ''c'']] \<and>
   [] \<notin> set [[''S1'', ''a''], [''S1'', ''b''], [''S2'', ''c'']] \<and>
   map_sum id set (get_samplesIDs_from_samples_fastq_raw
      (Dir [(''m.csv'', File [''S2,c'', ''S1,a'', ''S1,b''])]) (example_analysis [''run''] [] None) (Some [''m.csv''])) =
   map_sum id set (get_samplesIDs_from_samples_fastq_raw
      (Dir [(''m.csv'', File [''S1,a'', ''S1,b'', ''S2,c''])]) (example_analysis [''run''] [] None) (Some [''m.csv''])) \<and>
   (\<exists>ids. get_samplesIDs_from_samples_fastq_raw
      (Dir [(''m.csv'', File [''S1,a'', ''S1,b'', ''S2,c''])]) (example_analysis [''run''] [] None) (Some [''m.csv'']) = Inr ids \<and>
      set ids = {''S1'', ''S2''} \<and> length ids = 2)"
proof -
  let ?fs = "Dir [(''m.csv'', File [''S1,a'', ''S1,b'', ''S2,c''])]"
  let ?fs' = "Dir [(''m.csv'', File [''S2,c'', ''S1,a'', ''S1,b''])]"
  have h1: "(case Some [''m.csv''] of None \<Rightarrow> map_of (static_files (example_analysis [''run''] [] None)) ''samples_fastq_raw''
      | Some q \<Rightarrow> Some q) = Some [''m.csv'']" by simp
  have h2: "read_lines ?fs [''m.csv''] = Inr [''S1,a'', ''S1,b'', ''S2,c'']"
    by (simp add: read_lines_def)
  have h3: "csv_reader [''S1,a'', ''S1,b'', ''S2,c''] = ([[''S1'', ''a''], [''S1'', ''b''], [''S2'', ''c'']], None)"
    by (simp add: reader_defs)
  have h4: "read_lines ?fs' [''m.csv''] = Inr [''S2,c'', ''S1,a'', ''S1,b'']"
    by (simp add: read_lines_def)
  have h5: "csv_reader [''S2,c'', ''S1,a'', ''S1,b''] = ([[''S2'', ''c''], [''S1'', ''a''], [''S1'', ''b'']], None)"
    by (simp add: reader_defs)
  have h6: "mset [[''S2'', ''c''], [''S1'', ''a''], [''S1'', ''b'']] = mset [[''S1'', ''a''], [''S1'', ''b''], [''S2'', ''c'']]"
    by simp
  have h7: "[] \<notin> set [[''S1'', ''a''], [''S1'', ''b''], [''S2'', ''c'']]" by simp
  from samplesIDs_deduplicated_set [OF h1 h2 h3 h4 h5 h6, of "[''a'']" "[''b'']" "[''c'']"] h2 h3 h4 h5 h6 h7
  show ?thesis by simp
qed

subsection \<open>The check of the analysis directory\<close>

text \<open>
  C6: the status of \<^verbatim>\<open>dir_exists\<close> is \<^verbatim>\<open>os.path.exists(self.dir)\<close>. For an
  analysis path that is a regular file, the recorded status is true although
  the path is no directory.
\<close>

theorem dir_exists_true_for_regular_file:
  "map_option status
     (map_of (validations (snd (validate (Dir [(''run'', File [''not a directory''])])
                                  (example_analysis [''run''] [] None))))
        ''dir_exists'') = Some True
   \<and> \<not> path_isdir (Dir [(''run'', File [''not a directory''])]) [''run'']"
  by (simp add: validate_def Let_def check_qsub_log_errors_present_def get_qsub_logfiles_def
      get_dirs_def registry_get_def list_none_def record_validation_def example_analysis_def
      path_exists_def path_isdir_def expected_static_files_def)

subsection \<open>A manifest that cannot be read\<close>

text \<open>
  C8, as stated, fails: with the manifest path set (it always is after
  construction) and no such file on disk, the exception is the \<^verbatim>\<open>IOError\<close>
  of \<^verbatim>\<open>open\<close>, not \<^verbatim>\<open>AnalysisItemMissing\<close>.
\<close>

theorem samplesIDs_unreadable_counterexample:
  "read_lines (Dir [(''run'', Dir [])]) [''run'', ''samples.fastq-raw.csv''] = Inl IOError \<and>
   get_samplesIDs_from_samples_fastq_raw (Dir [(''run'', Dir [])]) (example_analysis [''run''] [] None) None
     = Inl IOError \<and>
   get_samplesIDs_from_samples_fastq_raw (Dir [(''run'', Dir [])]) (example_analysis [''run''] [] None) None
     \<noteq> Inl AnalysisItemMissing"
  by (simp add: get_samplesIDs_from_samples_fastq_raw_def read_lines_def example_analysis_def Let_def)

text \<open>
  C8, amended: \<^verbatim>\<open>get_samplesIDs_from_samples_fastq_raw\<close> raises
  \<^verbatim>\<open>AnalysisItemMissing\<close> when no path is passed and \<^verbatim>\<open>static_files\<close> holds
  none for \<^verbatim>\<open>samples_fastq_raw\<close>; when the path is set and the file cannot be
  opened, it leaves with the \<^verbatim>\<open>IOError\<close> of \<^verbatim>\<open>open\<close>.
\<close>

theorem samplesIDs_missing_cases:
  "(fname = None \<and> map_of (static_files a) ''samples_fastq_raw'' = None \<longrightarrow>
      get_samplesIDs_from_samples_fastq_raw fs a fname = Inl AnalysisItemMissing) \<and>
   ((case fname of None \<Rightarrow> map_of (static_files a) ''samples_fastq_raw'' | Some q \<Rightarrow> Some q) = Some p \<and>
    read_lines fs p = Inl IOError \<longrightarrow>
      get_samplesIDs_from_samples_fastq_raw fs a fname = Inl IOError)"
  by (auto simp: get_samplesIDs_from_samples_fastq_raw_def Let_def)

theorem samplesIDs_missing_cases_witness:
  "map_of (static_files ((example_analysis [''run''] [] None)\<lparr>static_files := []\<rparr>)) ''samples_fastq_raw'' = None \<and>
   get_samplesIDs_from_samples_fastq_raw (Dir []) ((example_analysis [''run''] [] None)\<lparr>static_files := []\<rparr>) None
     = Inl AnalysisItemMissing \<and>
   read_lines (Dir []) [''gone.csv''] = Inl IOError \<and>
   get_samplesIDs_from_samples_fastq_raw (Dir []) (example_analysis [''run''] [] None) (Some [''gone.csv''])
     = Inl IOError"
proof -
  have h1: "map_of (static_files ((example_analysis [''run''] [] None)\<lparr>static_files := []\<rparr>)) ''samples_fastq_raw'' = None"
    by simp
  have h2: "read_lines (Dir []) [''gone.csv''] = Inl IOError"
    by (simp add: read_lines_def)
  from samplesIDs_missing_cases [where fname = None
        and a = "(example_analysis [''run''] [] None)\<lparr>static_files := []\<rparr>" and fs = "Dir []"]
    samplesIDs_missing_cases [where fname = "Some [''gone.csv'']"
        and a = "example_analysis [''run''] [] None" and p = "[''gone.csv'']" and fs = "Dir []"]
    h1 h2
  show ?thesis by simp
qed

subsection \<open>The output files of a sample\<close>

lemma entries_last:
  "\<forall>x \<in> set (entries lim d root). fst x \<noteq> [] \<and> last (fst x) = fst (snd x)"
  "\<forall>x \<in> set (entries_below lim d cs). fst x \<noteq> [] \<and> last (fst x) = fst (snd x)"
  by (induction lim d root and lim d cs rule: entries_entries_below.induct)
     (auto split: option.splits nat.splits)

lemma find_find_names:
  assumes "p \<in> set (find_find fs d inc exc t nl ll m)"
  shows "p \<noteq> [] \<and> name_ok inc exc m (last p)"
proof (cases "lookup fs d")
  case None
  then show ?thesis using assms by (simp add: find_find_def)
next
  case (Some root)
  have "set (find_find fs d inc exc t nl ll m) \<subseteq>
      set (map fst (filter (\<lambda>(p, name, n). kind_ok t n \<and> name_ok inc exc m name) (entries ll d root)))"
    by (auto simp: find_find_def Some Let_def split: option.splits dest: in_set_takeD)
  then obtain x where "x \<in> set (entries ll d root)" "fst x = p" "name_ok inc exc m (fst (snd x))"
    using assms by auto
  then show ?thesis using entries_last(1) [of ll d root] by auto
qed

text \<open>
  C9: \<^verbatim>\<open>get_output_files\<close> of a sample raises \<^verbatim>\<open>AnalysisItemMissing\<close> when
  the registry holds no directory for the step. For a resolved step directory
  it returns the result of the file search in which every pattern must match,
  so the name of every returned path matches both the pattern passed and the
  sample's own pattern, its id followed by \<^verbatim>\<open>*\<close>. For the sample \<^verbatim>\<open>S1\<close>, the
  pattern \<^verbatim>\<open>*.bam\<close> and a step directory holding the files \<^verbatim>\<open>S1.bam\<close> and
  \<^verbatim>\<open>S2.bam\<close>, the result is the one path of \<^verbatim>\<open>S1.bam\<close>.
\<close>

theorem get_output_files_both_patterns:
  "(registry_get (cfg_dirs config) step = [] \<longrightarrow>
      get_output_files fs (SnsAnalysisSample_init ident config cfg) step pattern = Inl AnalysisItemMissing) \<and>
   (registry_get (cfg_dirs config) step = [d] \<longrightarrow>
      (\<exists>found. get_output_files fs (SnsAnalysisSample_init ident config cfg) step pattern = Inr found \<and>
         (\<forall>p \<in> set found. glob pattern (last p) \<and> glob (ident @ ''*'') (last p)))) \<and>
   (registry_get (cfg_dirs config) step = [d] \<and>
    lookup fs d = Some (Dir [(''S1.bam'', File ca), (''S2.bam'', File cb)]) \<longrightarrow>
      get_output_files fs (SnsAnalysisSample_init ''S1'' config cfg) step ''*.bam'' = Inr [d @ [''S1.bam'']])"
proof (intro conjI impI)
  assume "registry_get (cfg_dirs config) step = []"
  then show "get_output_files fs (SnsAnalysisSample_init ident config cfg) step pattern = Inl AnalysisItemMissing"
    by (simp add: get_output_files_def SnsAnalysisSample_init_def list_none_def)
next
  assume r: "registry_get (cfg_dirs config) step = [d]"
  have "get_output_files fs (SnsAnalysisSample_init ident config cfg) step pattern =
      Inr (find_find fs d [pattern, ident @ ''*''] [] SearchFile None None MatchAll)"
    using r by (simp add: get_output_files_def SnsAnalysisSample_init_def list_none_def)
  moreover have "glob pattern (last p) \<and> glob (ident @ ''*'') (last p)"
    if "p \<in> set (find_find fs d [pattern, ident @ ''*''] [] SearchFile None None MatchAll)" for p
    using find_find_names [OF that] by (simp add: name_ok_def)
  ultimately show "\<exists>found. get_output_files fs (SnsAnalysisSample_init ident config cfg) step pattern = Inr found \<and>
         (\<forall>p \<in> set found. glob pattern (last p) \<and> glob (ident @ ''*'') (last p))"
    by blast
next
  assume "registry_get (cfg_dirs config) step = [d] \<and>
    lookup fs d = Some (Dir [(''S1.bam'', File ca), (''S2.bam'', File cb)])"
  then show "get_output_files fs (SnsAnalysisSample_init ''S1'' config cfg) step ''*.bam'' = Inr [d @ [''S1.bam'']]"
    by (simp add: get_output_files_def SnsAnalysisSample_init_def list_none_def find_find_def
        kind_ok_def name_ok_def Let_def)
qed

theorem get_output_files_both_patterns_witness:
  "registry_get (cfg_dirs (example_config [(''BAM-DD'', [[''run'', ''BAM-DD'']]), (''VCF'', [])])) ''VCF'' = [] \<and>
   get_output_files (Dir [(''run'', Dir [(''BAM-DD'', Dir [(''S1.bam'', File []), (''S2.bam'', File [])])])])
      (SnsAnalysisSample_init ''S1'' (example_config [(''BAM-DD'', [[''run'', ''BAM-DD'']]), (''VCF'', [])]) example_cfg)
      ''VCF'' ''*.vcf'' = Inl AnalysisItemMissing \<and>
   registry_get (cfg_dirs (example_config [(''BAM-DD'', [[''run'', ''BAM-DD'']]), (''VCF'', [])])) ''BAM-DD''
      = [[''run'', ''BAM-DD'']] \<and>
   lookup (Dir [(''run'', Dir [(''BAM-DD'', Dir [(''S1.bam'', File []), (''S2.bam'', File [])])])]) [''run'', ''BAM-DD'']
      = Some (Dir [(''S1.bam'', File []), (''S2.bam'', File [])]) \<and>
   get_output_files (Dir [(''run'', Dir [(''BAM-DD'', Dir [(''S1.bam'', File []), (''S2.bam'', File [])])])])
      (SnsAnalysisSample_init ''S1'' (example_config [(''BAM-DD'', [[''run'', ''BAM-DD'']]), (''VCF'', [])]) example_cfg)
      ''BAM-DD'' ''*.bam'' = Inr [[''run'', ''BAM-DD'', ''S1.bam'']] \<and>
   glob ''*.bam'' ''S1.bam'' \<and> glob ''S1*'' ''S1.bam'' \<and> \<not> glob ''S1*'' ''S2.bam''"
proof -
  let ?fs = "Dir [(''run'', Dir [(''BAM-DD'', Dir [(''S1.bam'', File []), (''S2.bam'', File [])])])]"
  let ?c = "example_config [(''BAM-DD'', [[''run'', ''BAM-DD'']]), (''VCF'', [])]"
  have h1: "registry_get (cfg_dirs ?c) ''VCF'' = []"
    by (simp add: example_config_def registry_get_def)
  have h2: "registry_get (cfg_dirs ?c) ''BAM-DD'' = [[''run'', ''BAM-DD'']]"
    by (simp add: example_config_def registry_get_def)
  have h3: "lookup ?fs [''run'', ''BAM-DD''] = Some (Dir [(''S1.bam'', File []), (''S2.bam'', File [])])"
    by simp
  have g: "glob ''*.bam'' ''S1.bam''" "glob ''S1*'' ''S1.bam''" "\<not> glob ''S1*'' ''S2.bam''"
    by simp_all
  from get_output_files_both_patterns [where config = ?c and step = "''VCF''" and fs = ?fs
      and ident = "''S1''" and cfg = example_cfg and pattern = "''*.vcf''"]
    get_output_files_both_patterns [where config = ?c and step = "''BAM-DD''" and fs = ?fs
      and d = "[''run'', ''BAM-DD'']" and ca = "[]" and cb = "[]" and cfg = example_cfg]
    h1 h2 h3 g
  show ?thesis by simp
qed

subsection \<open>Objects built in debug mode\<close>






subsection \<open>The scans of the logs and of the summary\<close>

lemma dict_set_idem: "dict_set k v (dict_set k v d) = dict_set k v d"
  by (induction d) auto

lemma dict_set_keys: "fst ` set (dict_set k v d) = insert k (fst ` set d)"
  by (simp add: dom_map_of_conv_image_fst [symmetric] map_of_dict_set)

lemma dict_set_all_True: "list_all snd d \<Longrightarrow> list_all snd (dict_set k True d)"
  by (induction d) auto

lemma fold_cond_idem:
  assumes "\<And>c. f (f c) = f c"
  shows "fold (\<lambda>x c. if P x then f c else c) xs c = (if list_ex P xs then f c else c)"
proof (induction xs arbitrary: c)
  case Nil
  show ?case by simp
next
  case (Cons x xs)
  show ?case by (simp add: Cons.IH assms)
qed

lemma scan_row_eq:
  "scan_row err sid row ce = (if row_has_error err row then dict_set sid True ce else ce)"
proof -
  have "list_ex (\<lambda>item. item = VStr err) (map snd (filter (\<lambda>(key, v). key \<noteq> Some ''#SAMPLE'') row))
      = row_has_error err row"
    by (induction row) (auto simp: row_has_error_def)
  then show ?thesis
    unfolding scan_row_def
    by (simp add: fold_cond_idem [where f = "dict_set sid True", OF dict_set_idem])
qed

lemma scan_rows_has_key:
  "scan_rows err rows ce = Inr ce' \<Longrightarrow> row \<in> set rows \<Longrightarrow> map_of row (Some ''#SAMPLE'') \<noteq> None"
  by (induction rows arbitrary: ce) (auto split: option.splits)

lemma scan_rows_all_True:
  "scan_rows err rows ce = Inr ce' \<Longrightarrow> list_all snd ce \<Longrightarrow> list_all snd ce'"
  by (induction rows arbitrary: ce) (auto split: option.splits simp: scan_row_eq dict_set_all_True)

lemma scan_rows_keys:
  "scan_rows err rows ce = Inr ce' \<Longrightarrow>
     fst ` set ce' = fst ` set ce \<union>
       {sid. \<exists>row \<in> set rows. row_has_error err row \<and> map_of row (Some ''#SAMPLE'') = Some sid}"
proof (induction rows arbitrary: ce)
  case Nil
  then show ?case by simp
next
  case (Cons row rows)
  from Cons.prems obtain sid where sid: "map_of row (Some ''#SAMPLE'') = Some sid"
    and rest: "scan_rows err rows (scan_row err sid row ce) = Inr ce'"
    by (auto split: option.splits)
  have ih: "fst ` set ce' = fst ` set (scan_row err sid row ce) \<union>
       {sid. \<exists>row \<in> set rows. row_has_error err row \<and> map_of row (Some ''#SAMPLE'') = Some sid}"
    by (rule Cons.IH [OF rest])
  have k: "fst ` set (scan_row err sid row ce) =
      (if row_has_error err row then insert sid (fst ` set ce) else fst ` set ce)"
    by (simp add: scan_row_eq dict_set_keys)
  show ?case
    unfolding ih k using sid by (cases "row_has_error err row") auto
qed

lemma scan_rows_KeyError:
  "scan_rows err rows ce = Inl e \<Longrightarrow> e = KeyError"
  by (induction rows arbitrary: ce) (auto split: option.splits)

lemma scan_rows_clean:
  "\<forall>row \<in> set rows. map_of row (Some ''#SAMPLE'') \<noteq> None \<and> \<not> row_has_error err row
     \<Longrightarrow> scan_rows err rows ce = Inr ce"
  by (induction rows arbitrary: ce) (auto simp: scan_row_eq)

lemma get_frame [simp]:
  "get_summary_combined_contents fs (record_validation n s t a) f = get_summary_combined_contents fs a f"
  "get_summary_combined_contents fs (a\<lparr>logged := x\<rparr>) f = get_summary_combined_contents fs a f"
  "get_qsub_logfiles fs (record_validation n s t a) d = get_qsub_logfiles fs a d"
  "get_qsub_logfiles fs (a\<lparr>logged := x\<rparr>) d = get_qsub_logfiles fs a d"
  "get_summary_combined_contents fs (a\<lparr>validations := y\<rparr>) f = get_summary_combined_contents fs a f"
  "get_qsub_logfiles fs (a\<lparr>validations := y\<rparr>) d = get_qsub_logfiles fs a d"
  by (simp_all add: get_summary_combined_contents_def get_qsub_logfiles_def get_dirs_def
      record_validation_def cong: option.case_cong)

lemma checks_frame [simp]:
  "summary_combined_contains_errors fs (record_validation n s t a) r e = summary_combined_contains_errors fs a r e"
  "summary_combined_contains_errors fs (a\<lparr>logged := x\<rparr>) r e = summary_combined_contains_errors fs a r e"
  "summary_combined_contains_errors fs (a\<lparr>validations := y\<rparr>) r e = summary_combined_contains_errors fs a r e"
  "check_qsub_log_errors_present fs (record_validation n s t a) lf ps = check_qsub_log_errors_present fs a lf ps"
  "check_qsub_log_errors_present fs (a\<lparr>logged := x\<rparr>) lf ps = check_qsub_log_errors_present fs a lf ps"
  "check_qsub_log_errors_present fs (a\<lparr>validations := y\<rparr>) lf ps = check_qsub_log_errors_present fs a lf ps"
  unfolding summary_combined_contains_errors_def check_qsub_log_errors_present_def get_frame
  by (rule refl)+

lemma scan_rows_key_iff:
  assumes "scan_rows err rows [] = Inr ce"
  shows "(sid \<in> fst ` set ce) =
         (\<exists>row \<in> set rows. row_has_error err row \<and> map_of row (Some ''#SAMPLE'') = Some sid)"
proof -
  have "fst ` set ce = {sid. \<exists>row \<in> set rows. row_has_error err row \<and> map_of row (Some ''#SAMPLE'') = Some sid}"
    using scan_rows_keys [OF assms] by simp
  then have "(sid \<in> fst ` set ce) =
      (sid \<in> {sid. \<exists>row \<in> set rows. row_has_error err row \<and> map_of row (Some ''#SAMPLE'') = Some sid})"
    by (rule arg_cong)
  then show ?thesis by (simp only: mem_Collect_eq)
qed

lemma list_all_snd_filter: "list_all snd ce \<Longrightarrow> filter snd ce = ce"
  by (induction ce) auto

lemma list_all_snd_ex: "list_all snd ce \<Longrightarrow> ce \<noteq> [] \<Longrightarrow> list_ex snd ce"
  by (cases ce) auto

lemma summary_rows_nonempty:
  assumes "scan_rows err rows [] = Inr ce"
  shows "(ce \<noteq> []) = list_ex (row_has_error err) rows"
proof
  assume "ce \<noteq> []"
  then obtain x xs where "ce = x # xs" by (cases ce) auto
  then have "fst x \<in> fst ` set ce" by simp
  then have "\<exists>row \<in> set rows. row_has_error err row \<and> map_of row (Some ''#SAMPLE'') = Some (fst x)"
    by (simp only: scan_rows_key_iff [OF assms])
  then obtain row where "row \<in> set rows" "row_has_error err row" by blast
  then show "list_ex (row_has_error err) rows" unfolding list_ex_iff by blast
next
  assume "list_ex (row_has_error err) rows"
  then obtain row where r: "row \<in> set rows" "row_has_error err row" unfolding list_ex_iff by blast
  from scan_rows_has_key [OF assms r(1)] obtain sid where s: "map_of row (Some ''#SAMPLE'') = Some sid"
    by blast
  have "\<exists>row \<in> set rows. row_has_error err row \<and> map_of row (Some ''#SAMPLE'') = Some sid"
    using r s by blast
  then have "sid \<in> fst ` set ce" by (simp only: scan_rows_key_iff [OF assms])
  then show "ce \<noteq> []" by auto
qed


lemma summary_rows_ids:
  assumes "scan_rows err rows [] = Inr ce"
  shows "Some ` set (map fst ce) =
           (\<lambda>row. map_of row (Some ''#SAMPLE'')) ` {row \<in> set rows. row_has_error err row}"
proof (intro set_eqI iffI)
  fix x assume "x \<in> Some ` set (map fst ce)"
  then obtain sid where x: "x = Some sid" and "sid \<in> fst ` set ce" by auto
  then have "\<exists>row \<in> set rows. row_has_error err row \<and> map_of row (Some ''#SAMPLE'') = Some sid"
    by (simp only: scan_rows_key_iff [OF assms])
  then obtain row where "row \<in> set rows" "row_has_error err row" "map_of row (Some ''#SAMPLE'') = x"
    using x by blast
  then show "x \<in> (\<lambda>row. map_of row (Some ''#SAMPLE'')) ` {row \<in> set rows. row_has_error err row}"
    by blast
next
  fix x assume "x \<in> (\<lambda>row. map_of row (Some ''#SAMPLE'')) ` {row \<in> set rows. row_has_error err row}"
  then obtain row where r: "row \<in> set rows" "row_has_error err row" "x = map_of row (Some ''#SAMPLE'')"
    by blast
  from scan_rows_has_key [OF assms r(1)] obtain sid where s: "map_of row (Some ''#SAMPLE'') = Some sid"
    by blast
  have "\<exists>row \<in> set rows. row_has_error err row \<and> map_of row (Some ''#SAMPLE'') = Some sid"
    using r s by blast
  then have "sid \<in> fst ` set ce" by (simp only: scan_rows_key_iff [OF assms])
  then show "x \<in> Some ` set (map fst ce)" using r(3) s by simp
qed

lemma summary_contains_errors_result:
  assumes "summary_combined_contains_errors fs a None err = Inr (b, l)"
    and "get_summary_combined_contents fs a None = Inr rows"
  shows "b = list_ex (row_has_error err) rows"
    and "b \<Longrightarrow> \<exists>ids. WarningSummaryErrors ids \<in> set l \<and>
           Some ` set ids = (\<lambda>row. map_of row (Some ''#SAMPLE'')) ` {row \<in> set rows. row_has_error err row}"
proof -
  have u: "summary_combined_contains_errors fs a None err =
      (case scan_rows err rows [] of
         Inl e \<Rightarrow> Inl e
       | Inr contains_errors \<Rightarrow>
           if length contains_errors < 1 then Inr (False, if rows = [] then [ErrorSummaryNotFound] else [])
           else if list_ex snd contains_errors
           then Inr (True, (if rows = [] then [ErrorSummaryNotFound] else []) @
                      [WarningSummaryErrors (map fst (filter snd contains_errors))])
           else Inr (False, if rows = [] then [ErrorSummaryNotFound] else []))"
    by (simp add: summary_combined_contains_errors_def assms(2) Let_def)
  obtain ce where ce: "scan_rows err rows [] = Inr ce"
    using assms(1) unfolding u by (cases "scan_rows err rows []") auto
  have tr: "list_all snd ce" using scan_rows_all_True [OF ce] by simp
  have ne: "(ce \<noteq> []) = list_ex (row_has_error err) rows" by (rule summary_rows_nonempty [OF ce])
  have f: "filter snd ce = ce" by (rule list_all_snd_filter [OF tr])
  show b: "b = list_ex (row_has_error err) rows"
  proof (cases "ce = []")
    case True
    then show ?thesis using assms(1) ne unfolding u ce by simp
  next
    case False
    then have "list_ex snd ce" by (rule list_all_snd_ex [OF tr])
    then show ?thesis using assms(1) ne False unfolding u ce by simp
  qed
  show "\<exists>ids. WarningSummaryErrors ids \<in> set l \<and>
           Some ` set ids = (\<lambda>row. map_of row (Some ''#SAMPLE'')) ` {row \<in> set rows. row_has_error err row}"
    if b
  proof -
    have n: "ce \<noteq> []" using that b ne by simp
    then have "list_ex snd ce" by (rule list_all_snd_ex [OF tr])
    then have "WarningSummaryErrors (map fst ce) \<in> set l"
      using assms(1) n unfolding u ce by (auto simp: f)
    then show ?thesis using summary_rows_ids [OF ce] by blast
  qed
qed

lemma scan_lines_eq:
  "scan_lines pats f ls ce =
     (if list_ex (line_has_error pats) ls then dict_set f True ce else ce)"
proof -
  have inner: "fold (\<lambda>err_pattern ce'. if str_contains err_pattern line then dict_set f True ce' else ce') pats c
      = (if line_has_error pats line then dict_set f True c else c)" for line c
    unfolding line_has_error_def
    by (rule fold_cond_idem [where f = "dict_set f True", OF dict_set_idem])
  show ?thesis
    unfolding scan_lines_def inner
    by (rule fold_cond_idem [where f = "dict_set f True", OF dict_set_idem])
qed

lemma scan_logs_clean:
  "\<forall>f \<in> set lfs. \<exists>ls. read_lines fs f = Inr ls \<and> \<not> list_ex (line_has_error pats) ls
     \<Longrightarrow> scan_logs fs pats lfs ce = Inr ce"
  by (induction lfs arbitrary: ce) (auto simp: scan_lines_eq)

lemma check_qsub_clean:
  assumes "get_qsub_logfiles fs a None = Inr lfs" and "lfs \<noteq> []"
    and "\<forall>f \<in> set lfs. \<exists>ls. read_lines fs f = Inr ls \<and> \<not> list_ex (line_has_error pats) ls"
  shows "check_qsub_log_errors_present fs a None pats = Inr (False, [])"
  using assms(1,2) scan_logs_clean [OF assms(3), of "[]"]
  by (simp add: check_qsub_log_errors_present_def)

lemma summary_clean:
  assumes "get_summary_combined_contents fs a None = Inr rows"
    and "\<forall>row \<in> set rows. map_of row (Some ''#SAMPLE'') \<noteq> None \<and> \<not> row_has_error err row"
  shows "\<exists>l. summary_combined_contains_errors fs a None err = Inr (False, l)"
  using assms(1) scan_rows_clean [OF assms(2), of "[]"]
  by (simp add: summary_combined_contains_errors_def Let_def)

lemma validate_fst:
  assumes "check_qsub_log_errors_present fs a None [''ERROR:''] = Inr (q, l3)"
    and "summary_combined_contains_errors fs a None ''X'' = Inr (s, l4)"
  shows "\<exists>v. fst (validate fs a) = Inr v"
  by (simp add: validate_def Let_def assms)

subsection \<open>The validations of a completed run\<close>

lemma expected_static_files_frame [simp]:
  "expected_static_files (record_validation n s t a) = expected_static_files a"
  "expected_static_files (a\<lparr>validations := y\<rparr>) = expected_static_files a"
  "expected_static_files (a\<lparr>logged := x\<rparr>) = expected_static_files a"
  by (simp_all add: expected_static_files_def record_validation_def)

lemma validations_record_validation:
  "validations (record_validation n s t a) = dict_set n \<lparr>status = s, v_note = t\<rparr> (validations a)"
  by (simp add: record_validation_def)

lemma validate_success:
  assumes "check_qsub_log_errors_present fs a None [''ERROR:''] = Inr (q, l3)"
    and "summary_combined_contains_errors fs a None ''X'' = Inr (s, l4)"
  shows "validations (snd (validate fs a)) =
        [(''dir_exists'', \<lparr>status = path_exists fs (a_dir a), v_note = NoteDirExists (a_dir a)\<rparr>),
         (''expected_static_files_exist'',
          \<lparr>status = list_all (\<lambda>(key, p). path_exists fs p) (expected_static_files a),
           v_note = NoteStaticFiles (map (\<lambda>(key, p). (key, p, path_exists fs p)) (expected_static_files a))\<rparr>),
         (''no_qsub_log_errors_present'',
          \<lparr>status = \<not> q, v_note = NoteText ''Whether or not errors are present in the qsub logs''\<rparr>),
         (''no_summary_combined_errors'',
          \<lparr>status = \<not> s, v_note = NoteText ''Whether or not entries are present in the summary combined file''\<rparr>)]"
    and "fst (validate fs a) = Inr (list_all (\<lambda>(key, subdict). status subdict) (validations (snd (validate fs a))))"
    and "logged (snd (validate fs a)) = logged a @ l3 @ l4 @
          [DebugValidations (validations (snd (validate fs a))),
           InfoPassed (list_all (\<lambda>(key, subdict). status subdict) (validations (snd (validate fs a))))]"
proof -
  have sf: "list_all (\<lambda>item. snd (snd item)) (map (\<lambda>(key, v). (key, v, path_exists fs v)) xs)
      = list_all (\<lambda>(key, p). path_exists fs p) xs" for xs :: "(string \<times> path) list"
    by (induction xs) auto
  show "validations (snd (validate fs a)) =
        [(''dir_exists'', \<lparr>status = path_exists fs (a_dir a), v_note = NoteDirExists (a_dir a)\<rparr>),
         (''expected_static_files_exist'',
          \<lparr>status = list_all (\<lambda>(key, p). path_exists fs p) (expected_static_files a),
           v_note = NoteStaticFiles (map (\<lambda>(key, p). (key, p, path_exists fs p)) (expected_static_files a))\<rparr>),
         (''no_qsub_log_errors_present'',
          \<lparr>status = \<not> q, v_note = NoteText ''Whether or not errors are present in the qsub logs''\<rparr>),
         (''no_summary_combined_errors'',
          \<lparr>status = \<not> s, v_note = NoteText ''Whether or not entries are present in the summary combined file''\<rparr>)]"
    by (simp add: validate_def Let_def assms validations_record_validation sf)
  show "fst (validate fs a) = Inr (list_all (\<lambda>(key, subdict). status subdict) (validations (snd (validate fs a))))"
    by (simp add: validate_def Let_def assms list_all_iff split_def)
  show "logged (snd (validate fs a)) = logged a @ l3 @ l4 @
          [DebugValidations (validations (snd (validate fs a))),
           InfoPassed (list_all (\<lambda>(key, subdict). status subdict) (validations (snd (validate fs a))))]"
    by (simp add: validate_def Let_def assms list_all_iff split_def)
qed


lemma validate_Inr:
  assumes "validate fs a = (Inr v, a')"
  obtains q l3 s l4 where
    "check_qsub_log_errors_present fs a None [''ERROR:''] = Inr (q, l3)"
    "summary_combined_contains_errors fs a None ''X'' = Inr (s, l4)"
proof (cases "check_qsub_log_errors_present fs a None [''ERROR:'']")
  case (Inl e)
  then have "fst (validate fs a) = Inl e"
    by (simp add: validate_def Let_def)
  then show ?thesis using assms by simp
next
  case (Inr r)
  obtain q l3 where r: "r = (q, l3)" by (cases r)
  note q = Inr [unfolded r]
  show ?thesis
  proof (cases "summary_combined_contains_errors fs a None ''X''")
    case (Inl e)
    then have "fst (validate fs a) = Inl e"
      by (simp add: validate_def Let_def q)
    then show ?thesis using assms by simp
  next
    case (Inr r')
    obtain s l4 where r': "r' = (s, l4)" by (cases r')
    show ?thesis using that [OF q Inr [unfolded r']] .
  qed
qed

subsection \<open>The check of the combined summary\<close>

text \<open>
  C5, as stated, fails in its second half: for a summary whose row \<^verbatim>\<open>S2\<close>
  holds an \<^verbatim>\<open>X\<close>, the status of \<^verbatim>\<open>no_summary_combined_errors\<close> is false and
  its note is the fixed text of the check, in which \<^verbatim>\<open>S2\<close> does not occur.
\<close>

theorem summary_note_counterexample:
  "get_summary_combined_contents (example_fs [''started'', ''done''] [''#SAMPLE,READS'', ''S1,100'', ''S2,X''])
      (example_analysis [''run''] [(''logs-qsub'', [[''run'', ''logs-qsub'']]), (''BAM-DD'', [])] None) None
     = Inr [[(Some ''#SAMPLE'', VStr ''S1''), (Some ''READS'', VStr ''100'')],
            [(Some ''#SAMPLE'', VStr ''S2''), (Some ''READS'', VStr ''X'')]] \<and>
   map_of (validations (snd (validate (example_fs [''started'', ''done''] [''#SAMPLE,READS'', ''S1,100'', ''S2,X''])
      (example_analysis [''run''] [(''logs-qsub'', [[''run'', ''logs-qsub'']]), (''BAM-DD'', [])] None))))
      ''no_summary_combined_errors''
     = Some \<lparr>status = False,
             v_note = NoteText ''Whether or not entries are present in the summary combined file''\<rparr> \<and>
   \<not> str_contains ''S2'' ''Whether or not entries are present in the summary combined file''"
  by (simp add: val_defs example_fs_def example_analysis_def)

text \<open>
  C5, amended: when \<^verbatim>\<open>validate\<close> returns, the status recorded for
  \<^verbatim>\<open>no_summary_combined_errors\<close> is false exactly when some row of the summary
  table has a cell equal to \<^verbatim>\<open>X\<close> in a column other than \<^verbatim>\<open>#SAMPLE\<close>; the
  note recorded is the fixed text of the check, and in that case the
  identifiers of exactly the offending rows are listed in a warning sent to
  the logger.
\<close>

theorem summary_check_status:
  assumes "validate fs a = (Inr v, a')"
    and "get_summary_combined_contents fs a None = Inr rows"
  shows "map_of (validations a') ''no_summary_combined_errors'' =
           Some \<lparr>status = \<not> list_ex (row_has_error ''X'') rows,
                 v_note = NoteText ''Whether or not entries are present in the summary combined file''\<rparr> \<and>
         (list_ex (row_has_error ''X'') rows \<longrightarrow>
            (\<exists>ids. WarningSummaryErrors ids \<in> set (logged a') \<and>
               Some ` set ids =
                 (\<lambda>row. map_of row (Some ''#SAMPLE'')) ` {row \<in> set rows. row_has_error ''X'' row}))"
proof -
  from validate_Inr [OF assms(1)] obtain q l3 s l4 where
    q: "check_qsub_log_errors_present fs a None [''ERROR:''] = Inr (q, l3)" and
    s: "summary_combined_contains_errors fs a None ''X'' = Inr (s, l4)" by blast
  have a': "snd (validate fs a) = a'" using assms(1) by simp
  note vs = validate_success [OF q s, unfolded a']
  note r = summary_contains_errors_result [OF s assms(2)]
  have 1: "map_of (validations a') ''no_summary_combined_errors'' =
           Some \<lparr>status = \<not> list_ex (row_has_error ''X'') rows,
                 v_note = NoteText ''Whether or not entries are present in the summary combined file''\<rparr>"
    unfolding vs(1) using r(1) by simp
  have 2: "\<exists>ids. WarningSummaryErrors ids \<in> set (logged a') \<and>
               Some ` set ids =
                 (\<lambda>row. map_of row (Some ''#SAMPLE'')) ` {row \<in> set rows. row_has_error ''X'' row}"
    if "list_ex (row_has_error ''X'') rows"
  proof -
    from that r(1) have s by simp
    from r(2) [OF this] obtain ids where "WarningSummaryErrors ids \<in> set l4"
      "Some ` set ids = (\<lambda>row. map_of row (Some ''#SAMPLE'')) ` {row \<in> set rows. row_has_error ''X'' row}"
      by blast
    moreover have "set l4 \<subseteq> set (logged a')" unfolding vs(3) by auto
    ultimately show ?thesis by blast
  qed
  show ?thesis using 1 2 by blast
qed

theorem summary_check_status_witness:
  "validate (example_fs [''started'', ''done''] [''#SAMPLE,READS'', ''S1,100'', ''S2,X''])
      (example_analysis [''run''] [(''logs-qsub'', [[''run'', ''logs-qsub'']]), (''BAM-DD'', [])] None)
     = (Inr False,
        snd (validate (example_fs [''started'', ''done''] [''#SAMPLE,READS'', ''S1,100'', ''S2,X''])
          (example_analysis [''run''] [(''logs-qsub'', [[''run'', ''logs-qsub'']]), (''BAM-DD'', [])] None))) \<and>
   get_summary_combined_contents (example_fs [''started'', ''done''] [''#SAMPLE,READS'', ''S1,100'', ''S2,X''])
      (example_analysis [''run''] [(''logs-qsub'', [[''run'', ''logs-qsub'']]), (''BAM-DD'', [])] None) None
     = Inr [[(Some ''#SAMPLE'', VStr ''S1''), (Some ''READS'', VStr ''100'')],
            [(Some ''#SAMPLE'', VStr ''S2''), (Some ''READS'', VStr ''X'')]] \<and>
   list_ex (row_has_error ''X'')
     [[(Some ''#SAMPLE'', VStr ''S1''), (Some ''READS'', VStr ''100'')],
      [(Some ''#SAMPLE'', VStr ''S2''), (Some ''READS'', VStr ''X'')]] \<and>
   map_option status
     (map_of (validations (snd (validate (example_fs [''started'', ''done''] [''#SAMPLE,READS'', ''S1,100'', ''S2,X''])
        (example_analysis [''run''] [(''logs-qsub'', [[''run'', ''logs-qsub'']]), (''BAM-DD'', [])] None))))
        ''no_summary_combined_errors'') = Some False \<and>
   (\<exists>ids. WarningSummaryErrors ids \<in> set (logged
        (snd (validate (example_fs [''started'', ''done''] [''#SAMPLE,READS'', ''S1,100'', ''S2,X''])
           (example_analysis [''run''] [(''logs-qsub'', [[''run'', ''logs-qsub'']]), (''BAM-DD'', [])] None)))) \<and>
      Some ` set ids =
        (\<lambda>row. map_of row (Some ''#SAMPLE'')) `
          {row \<in> set [[(Some ''#SAMPLE'', VStr ''S1''), (Some ''READS'', VStr ''100'')],
                       [(Some ''#SAMPLE'', VStr ''S2''), (Some ''READS'', VStr ''X'')]].
           row_has_error ''X'' row})"
proof -
  let ?fs = "example_fs [''started'', ''done''] [''#SAMPLE,READS'', ''S1,100'', ''S2,X'']"
  let ?a = "example_analysis [''run''] [(''logs-qsub'', [[''run'', ''logs-qsub'']]), (''BAM-DD'', [])] None"
  let ?rows = "[[(Some ''#SAMPLE'', VStr ''S1''), (Some ''READS'', VStr ''100'')],
            [(Some ''#SAMPLE'', VStr ''S2''), (Some ''READS'', VStr ''X'')]]"
  have "fst (validate ?fs ?a) = Inr False"
    by (simp add: val_defs example_fs_def example_analysis_def)
  then have h1: "validate ?fs ?a = (Inr False, snd (validate ?fs ?a))"
    by (simp add: prod_eq_iff)
  have h2: "get_summary_combined_contents ?fs ?a None = Inr ?rows"
    by (simp add: val_defs example_fs_def example_analysis_def)
  have h3: "list_ex (row_has_error ''X'') ?rows"
    by (simp add: row_has_error_def)
  note t = summary_check_status [OF h1 h2]
  from t have t1: "map_option status (map_of (validations (snd (validate ?fs ?a))) ''no_summary_combined_errors'') = Some False"
    using h3 by simp
  from t h3 have t2: "\<exists>ids. WarningSummaryErrors ids \<in> set (logged (snd (validate ?fs ?a))) \<and>
      Some ` set ids = (\<lambda>row. map_of row (Some ''#SAMPLE'')) ` {row \<in> set ?rows. row_has_error ''X'' row}"
    by blast
  show ?thesis using h1 h2 h3 t1 t2 by blast
qed

subsection \<open>A valid analysis\<close>

text \<open>
  C1, as stated, fails: with the analysis directory and the four static files
  present, a summary without \<^verbatim>\<open>X\<close> and a directory of queue logs that holds
  no file, so that no log line carries an error marker, \<^verbatim>\<open>validate\<close> does
  not return true: \<^verbatim>\<open>check_qsub_log_errors_present\<close> raises
  \<^verbatim>\<open>AnalysisItemMissing\<close> for the empty list of log files.
\<close>

theorem validate_empty_logs_counterexample:
  "path_exists (example_fs_no_logs [''#SAMPLE,READS'', ''S1,100'']) [''run''] \<and>
   list_all (\<lambda>(key, p). path_exists (example_fs_no_logs [''#SAMPLE,READS'', ''S1,100'']) p)
     (expected_static_files
        (example_analysis [''run''] [(''logs-qsub'', [[''run'', ''logs-qsub'']]), (''BAM-DD'', [])] None)) \<and>
   get_qsub_logfiles (example_fs_no_logs [''#SAMPLE,READS'', ''S1,100''])
      (example_analysis [''run''] [(''logs-qsub'', [[''run'', ''logs-qsub'']]), (''BAM-DD'', [])] None) None = Inr [] \<and>
   get_summary_combined_contents (example_fs_no_logs [''#SAMPLE,READS'', ''S1,100''])
      (example_analysis [''run''] [(''logs-qsub'', [[''run'', ''logs-qsub'']]), (''BAM-DD'', [])] None) None
     = Inr [[(Some ''#SAMPLE'', VStr ''S1''), (Some ''READS'', VStr ''100'')]] \<and>
   fst (validate (example_fs_no_logs [''#SAMPLE,READS'', ''S1,100''])
      (example_analysis [''run''] [(''logs-qsub'', [[''run'', ''logs-qsub'']]), (''BAM-DD'', [])] None))
     = Inl AnalysisItemMissing"
  by (simp add: val_defs example_fs_no_logs_def example_analysis_def)

text \<open>
  C1, amended: whenever \<^verbatim>\<open>validate\<close> returns, the validations hold the four
  checks and the result is the conjunction of their statuses. It returns
  true, with four true statuses, when the analysis directory exists, the four
  static files exist, the directory of queue logs is resolved and holds at
  least one log file, no line of a log file contains \<^verbatim>\<open>ERROR:\<close>, and every
  row of the summary table has the \<^verbatim>\<open>#SAMPLE\<close> column and no cell equal to
  \<^verbatim>\<open>X\<close> outside it.
\<close>

theorem validate_valid_analysis:
  "(validate fs a = (Inr v, a') \<longrightarrow>
      map fst (validations a') =
        [''dir_exists'', ''expected_static_files_exist'', ''no_qsub_log_errors_present'',
         ''no_summary_combined_errors''] \<and>
      v = list_all (\<lambda>(key, subdict). status subdict) (validations a')) \<and>
   (path_exists fs (a_dir a) \<and>
    list_all (\<lambda>(key, p). path_exists fs p) (expected_static_files a) \<and>
    get_qsub_logfiles fs a None = Inr log_files \<and> log_files \<noteq> [] \<and>
    (\<forall>f \<in> set log_files. \<exists>ls. read_lines fs f = Inr ls \<and> \<not> list_ex (line_has_error [''ERROR:'']) ls) \<and>
    get_summary_combined_contents fs a None = Inr rows \<and>
    (\<forall>row \<in> set rows. map_of row (Some ''#SAMPLE'') \<noteq> None \<and> \<not> row_has_error ''X'' row) \<longrightarrow>
      fst (validate fs a) = Inr True \<and>
      map (\<lambda>(key, subdict). (key, status subdict)) (validations (snd (validate fs a))) =
        [(''dir_exists'', True), (''expected_static_files_exist'', True),
         (''no_qsub_log_errors_present'', True), (''no_summary_combined_errors'', True)])"
proof (intro conjI impI)
  assume h: "validate fs a = (Inr v, a')"
  from validate_Inr [OF h] obtain q l3 s l4 where
    q: "check_qsub_log_errors_present fs a None [''ERROR:''] = Inr (q, l3)" and
    s: "summary_combined_contains_errors fs a None ''X'' = Inr (s, l4)" by blast
  have a': "snd (validate fs a) = a'" and v: "fst (validate fs a) = Inr v" using h by simp_all
  note vs = validate_success [OF q s, unfolded a' v]
  show "map fst (validations a') =
        [''dir_exists'', ''expected_static_files_exist'', ''no_qsub_log_errors_present'',
         ''no_summary_combined_errors'']"
    unfolding vs(1) by simp
  show "v = list_all (\<lambda>(key, subdict). status subdict) (validations a')"
    using vs(2) by simp
next
  assume h: "path_exists fs (a_dir a) \<and>
    list_all (\<lambda>(key, p). path_exists fs p) (expected_static_files a) \<and>
    get_qsub_logfiles fs a None = Inr log_files \<and> log_files \<noteq> [] \<and>
    (\<forall>f \<in> set log_files. \<exists>ls. read_lines fs f = Inr ls \<and> \<not> list_ex (line_has_error [''ERROR:'']) ls) \<and>
    get_summary_combined_contents fs a None = Inr rows \<and>
    (\<forall>row \<in> set rows. map_of row (Some ''#SAMPLE'') \<noteq> None \<and> \<not> row_has_error ''X'' row)"
  have q: "check_qsub_log_errors_present fs a None [''ERROR:''] = Inr (False, [])"
    using h by (intro check_qsub_clean [of fs a log_files]) simp_all
  obtain l where s: "summary_combined_contains_errors fs a None ''X'' = Inr (False, l)"
    using summary_clean [of fs a rows "''X''"] h by blast
  note vs = validate_success [OF q s]
  have st: "map (\<lambda>(key, subdict). (key, status subdict)) (validations (snd (validate fs a))) =
        [(''dir_exists'', True), (''expected_static_files_exist'', True),
         (''no_qsub_log_errors_present'', True), (''no_summary_combined_errors'', True)]"
    unfolding vs(1) using h by simp
  show "map (\<lambda>(key, subdict). (key, status subdict)) (validations (snd (validate fs a))) =
        [(''dir_exists'', True), (''expected_static_files_exist'', True),
         (''no_qsub_log_errors_present'', True), (''no_summary_combined_errors'', True)]"
    by (rule st)
  show "fst (validate fs a) = Inr True"
    unfolding vs(2) vs(1) using h by simp
qed

theorem validate_valid_analysis_witness:
  "validate (example_fs [''started'', ''done''] [''#SAMPLE,READS'', ''S1,100'', ''S2,90''])
      (example_analysis [''run''] [(''logs-qsub'', [[''run'', ''logs-qsub'']]), (''BAM-DD'', [])] None)
     = (Inr True,
        snd (validate (example_fs [''started'', ''done''] [''#SAMPLE,READS'', ''S1,100'', ''S2,90''])
          (example_analysis [''run''] [(''logs-qsub'', [[''run'', ''logs-qsub'']]), (''BAM-DD'', [])] None))) \<and>
   path_exists (example_fs [''started'', ''done''] [''#SAMPLE,READS'', ''S1,100'', ''S2,90'']) [''run''] \<and>
   get_qsub_logfiles (example_fs [''started'', ''done''] [''#SAMPLE,READS'', ''S1,100'', ''S2,90''])
      (example_analysis [''run''] [(''logs-qsub'', [[''run'', ''logs-qsub'']]), (''BAM-DD'', [])] None) None
     = Inr [[''run'', ''logs-qsub'', ''job.o1'']] \<and>
   read_lines (example_fs [''started'', ''done''] [''#SAMPLE,READS'', ''S1,100'', ''S2,90''])
      [''run'', ''logs-qsub'', ''job.o1''] = Inr [''started'', ''done''] \<and>
   get_summary_combined_contents (example_fs [''started'', ''done''] [''#SAMPLE,READS'', ''S1,100'', ''S2,90''])
      (example_analysis [''run''] [(''logs-qsub'', [[''run'', ''logs-qsub'']]), (''BAM-DD'', [])] None) None
     = Inr [[(Some ''#SAMPLE'', VStr ''S1''), (Some ''READS'', VStr ''100'')],
            [(Some ''#SAMPLE'', VStr ''S2''), (Some ''READS'', VStr ''90'')]] \<and>
   map (\<lambda>(key, subdict). (key, status subdict))
     (validations (snd (validate (example_fs [''started'', ''done''] [''#SAMPLE,READS'', ''S1,100'', ''S2,90''])
        (example_analysis [''run''] [(''logs-qsub'', [[''run'', ''logs-qsub'']]), (''BAM-DD'', [])] None)))) =
     [(''dir_exists'', True), (''expected_static_files_exist'', True),
      (''no_qsub_log_errors_present'', True), (''no_summary_combined_errors'', True)] \<and>
   list_all (\<lambda>(key, subdict). status subdict)
     (validations (snd (validate (example_fs [''started'', ''done''] [''#SAMPLE,READS'', ''S1,100'', ''S2,90''])
        (example_analysis [''run''] [(''logs-qsub'', [[''run'', ''logs-qsub'']]), (''BAM-DD'', [])] None))))"
proof -
  let ?fs = "example_fs [''started'', ''done''] [''#SAMPLE,READS'', ''S1,100'', ''S2,90'']"
  let ?a = "example_analysis [''run''] [(''logs-qsub'', [[''run'', ''logs-qsub'']]), (''BAM-DD'', [])] None"
  let ?rows = "[[(Some ''#SAMPLE'', VStr ''S1''), (Some ''READS'', VStr ''100'')],
            [(Some ''#SAMPLE'', VStr ''S2''), (Some ''READS'', VStr ''90'')]]"
  have h1: "path_exists ?fs (a_dir ?a)"
    by (simp add: path_exists_def example_fs_def example_analysis_def)
  have h2: "list_all (\<lambda>(key, p). path_exists ?fs p) (expected_static_files ?a)"
    by (simp add: path_exists_def example_fs_def example_analysis_def expected_static_files_def)
  have h3: "get_qsub_logfiles ?fs ?a None = Inr [[''run'', ''logs-qsub'', ''job.o1'']]"
    by (simp add: val_defs example_fs_def example_analysis_def)
  have h4: "read_lines ?fs [''run'', ''logs-qsub'', ''job.o1''] = Inr [''started'', ''done'']"
    by (simp add: read_lines_def example_fs_def)
  have h5: "\<forall>f \<in> set [[''run'', ''logs-qsub'', ''job.o1'']].
      \<exists>ls. read_lines ?fs f = Inr ls \<and> \<not> list_ex (line_has_error [''ERROR:'']) ls"
    using h4 by (simp add: line_has_error_def)
  have h6: "get_summary_combined_contents ?fs ?a None = Inr ?rows"
    by (simp add: val_defs example_fs_def example_analysis_def)
  have h7: "\<forall>row \<in> set ?rows. map_of row (Some ''#SAMPLE'') \<noteq> None \<and> \<not> row_has_error ''X'' row"
    by (simp add: row_has_error_def)
  note t = validate_valid_analysis [where fs = ?fs and a = ?a and v = True
      and a' = "snd (validate ?fs ?a)" and log_files = "[[''run'', ''logs-qsub'', ''job.o1'']]"
      and rows = ?rows]
  from t h1 h2 h3 h5 h6 h7 have c: "fst (validate ?fs ?a) = Inr True"
    "map (\<lambda>(key, subdict). (key, status subdict)) (validations (snd (validate ?fs ?a))) =
     [(''dir_exists'', True), (''expected_static_files_exist'', True),
      (''no_qsub_log_errors_present'', True), (''no_summary_combined_errors'', True)]"
    by blast+
  from c(1) have v: "validate ?fs ?a = (Inr True, snd (validate ?fs ?a))"
    by (simp add: prod_eq_iff)
  from t v have d: "True = list_all (\<lambda>(key, subdict). status subdict) (validations (snd (validate ?fs ?a)))"
    by blast
  have h1': "path_exists ?fs [''run'']" using h1 by (simp add: example_analysis_def)
  show ?thesis using v h1' h3 h4 h6 c(2) d by blast
qed

end
